theory Spec2Isabelle
  imports Main
begin

section \<open>Python built-ins used by the export scripts\<close>

text \<open>
  \<^verbatim>\<open>str(n)\<close> on an integer, as the f-strings of the scripts apply it: decimal digits,
  most significant first, no leading zero, a minus sign for a negative number.
\<close>

definition digit_char :: "nat \<Rightarrow> char" where
  "digit_char d = ''0123456789'' ! d"

function str_nat :: "nat \<Rightarrow> string" where
  "str_nat n = (if n < 10 then [digit_char n] else str_nat (n div 10) @ [digit_char (n mod 10)])"
  by pat_completeness auto
termination
  by (relation "measure (\<lambda>n. n)") auto

definition str_int :: "int \<Rightarrow> string" where
  "str_int i = (if i < 0 then CHR ''-'' # str_nat (nat (- i)) else str_nat (nat i))"

text \<open>\<^verbatim>\<open>sep.join(parts)\<close>.\<close>

fun str_join :: "string \<Rightarrow> string list \<Rightarrow> string" where
  "str_join sep [] = []"
| "str_join sep [p] = p"
| "str_join sep (p # q # ps) = p @ sep @ str_join sep (q # ps)"

text \<open>
  \<^verbatim>\<open>xs.index(x)\<close>: the position of the first occurrence; \<open>None\<close> stands for the
  \<^verbatim>\<open>ValueError\<close> Python raises when there is none.
\<close>

fun list_index :: "'a list \<Rightarrow> 'a \<Rightarrow> nat option" where
  "list_index [] x = None"
| "list_index (y # ys) x =
     (if y = x then Some 0 else (case list_index ys x of None \<Rightarrow> None | Some k \<Rightarrow> Some (Suc k)))"

section \<open>The chunker: \<^verbatim>\<open>process_transcript\<close> of \<^verbatim>\<open>export_to_pinecone_graphql.py\<close>\<close>

text \<open>
  Both scripts define \<^verbatim>\<open>create_embedding\<close>, \<^verbatim>\<open>process_transcript\<close> and \<^verbatim>\<open>main\<close>; the
  suffixes \<open>_graphql\<close> and \<open>_rest\<close> tell them apart.
\<close>

text \<open>
  The transcript is the decoded GraphQL answer, typed as the query of
  \<^verbatim>\<open>fetch_transcript_details_graphql\<close> asks for it. A field read with
  \<^verbatim>\<open>d.get(key, default)\<close> is an option: \<open>None\<close> is the absent key, which the code
  replaces by the default. The date is a number of milliseconds in this script and a
  formatted string in the other one, so it is kept as either.
\<close>

datatype date_value = DateNum int | DateStr string

record sentence =
  s_text :: "string option"
  speaker_id :: "int option"

record transcript =
  t_id :: "string option"
  t_title :: "string option"
  t_date :: "date_value option"
  t_duration :: "int option"
  t_participants :: "string list option"
  t_sentences :: "sentence list option"

text \<open>
  A speaker block. Its speaker is the value of the variable \<^verbatim>\<open>current_speaker\<close> when
  the block is closed; that variable starts as Python's \<^verbatim>\<open>None\<close>, hence the option.
\<close>

record speaker_block =
  b_speaker :: "string option"
  b_sentences :: "sentence list"

record chunk_metadata =
  transcript_id :: string
  title :: string
  speaker :: "string option"
  prev_speaker :: "string option"
  next_speaker :: "string option"
  participants :: "string list"
  recording_date :: date_value
  duration :: int
  chunk_index :: nat
  total_chunks :: nat
  source :: string

record chunk =
  chunk_text :: string
  metadata :: chunk_metadata

definition get_or :: "'a option \<Rightarrow> 'a \<Rightarrow> 'a" where
  "get_or v d = (case v of None \<Rightarrow> d | Some x \<Rightarrow> x)"

definition speaker_name :: "sentence \<Rightarrow> string" where
  "speaker_name s = ''Speaker '' @ str_int (get_or (speaker_id s) 0)"

text \<open>
  The grouping loop (\<^verbatim>\<open>for sentence in sentences\<close>), with its three variables
  \<^verbatim>\<open>current_speaker\<close>, \<^verbatim>\<open>current_block\<close> and \<^verbatim>\<open>speaker_blocks\<close> passed along.
\<close>

fun group_loop ::
  "sentence list \<Rightarrow> string option \<Rightarrow> sentence list \<Rightarrow> speaker_block list
     \<Rightarrow> string option \<times> sentence list \<times> speaker_block list" where
  "group_loop [] current_speaker current_block speaker_blocks =
     (current_speaker, current_block, speaker_blocks)"
| "group_loop (s # ss) current_speaker current_block speaker_blocks =
     (if current_speaker \<noteq> Some (speaker_name s) \<and> current_block \<noteq> []
      then group_loop ss (Some (speaker_name s)) [s]
             (speaker_blocks @ [\<lparr>b_speaker = current_speaker, b_sentences = current_block\<rparr>])
      else group_loop ss (Some (speaker_name s)) (current_block @ [s]) speaker_blocks)"

definition group_by_speaker :: "sentence list \<Rightarrow> speaker_block list" where
  "group_by_speaker sentences =
     (case group_loop sentences None [] [] of
        (current_speaker, current_block, speaker_blocks) \<Rightarrow>
          if current_block \<noteq> []
          then speaker_blocks @ [\<lparr>b_speaker = current_speaker, b_sentences = current_block\<rparr>]
          else speaker_blocks)"

definition block_text :: "speaker_block \<Rightarrow> string" where
  "block_text block = str_join '' '' (map (\<lambda>s. get_or (s_text s) '''') (b_sentences block))"

definition make_chunk :: "transcript \<Rightarrow> speaker_block list \<Rightarrow> nat \<Rightarrow> chunk" where
  "make_chunk tr speaker_blocks i =
     \<lparr>chunk_text = block_text (speaker_blocks ! i),
      metadata =
        \<lparr>transcript_id = get_or (t_id tr) '''',
         title = get_or (t_title tr) '''',
         speaker = b_speaker (speaker_blocks ! i),
         prev_speaker = (if i > 0 then b_speaker (speaker_blocks ! (i - 1)) else Some ''None''),
         next_speaker =
           (if i < length speaker_blocks - 1 then b_speaker (speaker_blocks ! (i + 1))
            else Some ''None''),
         participants = get_or (t_participants tr) [],
         recording_date = get_or (t_date tr) (DateStr ''''),
         duration = get_or (t_duration tr) 0,
         chunk_index = i,
         total_chunks = length speaker_blocks,
         source = ''fireflies''\<rparr>\<rparr>"

definition process_transcript_graphql :: "transcript \<Rightarrow> chunk list" where
  "process_transcript_graphql tr =
     (let speaker_blocks = group_by_speaker (get_or (t_sentences tr) [])
      in map (make_chunk tr speaker_blocks) [0..<length speaker_blocks])"

section \<open>What a run does to the outside world\<close>

text \<open>
  The scripts act on an embedding service, a clock, two files and a log. A run's world
  holds, each in the order it happened: the texts submitted to the embedding service,
  the pauses taken, the writes that outlive the process, and the log lines that record a
  decision (the purely informational counts and progress lines are left out).
\<close>

datatype pause = Seconds nat | RateLimitPause

datatype 'r effect =
    SaveCheckpoint "string set"
  | AppendLine 'r
  | WriteJson "'r list"
  | MarkProcessed string
  | Upsert string 'r

datatype log_level = Info | Warning | Error

datatype log_entry =
    Processing string
  | Resuming string nat
  | ResumeNotFound string
  | EmbeddingError nat
  | EmbeddingSkipped string
  | RunError
  | EmbeddingErrorFirst
  | EmbeddingErrorAfterRetry
  | FetchFailed string
  | NoChunks string
  | ChunkError
  | UpsertError

fun level :: "log_entry \<Rightarrow> log_level" where
  "level (Processing tid) = Info"
| "level (Resuming r n) = Info"
| "level (ResumeNotFound r) = Warning"
| "level (EmbeddingError attempt) = Error"
| "level (EmbeddingSkipped tid) = Warning"
| "level RunError = Error"
| "level EmbeddingErrorFirst = Error"
| "level EmbeddingErrorAfterRetry = Error"
| "level (FetchFailed tid) = Warning"
| "level (NoChunks tid) = Warning"
| "level ChunkError = Error"
| "level UpsertError = Error"

record 'r world =
  submitted :: "string list"
  slept :: "pause list"
  effects :: "'r effect list"
  logged :: "log_entry list"

definition world0 :: "'r world" where
  "world0 = \<lparr>submitted = [], slept = [], effects = [], logged = []\<rparr>"

definition log_line :: "log_entry \<Rightarrow> 'r world \<Rightarrow> 'r world" where
  "log_line e w = w\<lparr>logged := logged w @ [e]\<rparr>"

definition sleep :: "pause \<Rightarrow> 'r world \<Rightarrow> 'r world" where
  "sleep p w = w\<lparr>slept := slept w @ [p]\<rparr>"

definition emit :: "'r effect \<Rightarrow> 'r world \<Rightarrow> 'r world" where
  "emit x w = w\<lparr>effects := effects w @ [x]\<rparr>"

text \<open>
  The embedding service: its answer to the \<open>k\<close>-th request of the run (counted from 0)
  for a text, \<open>None\<close> when the request raises. Every request is recorded.
\<close>

type_synonym 'e embedding_service = "nat \<Rightarrow> string \<Rightarrow> 'e list option"

definition embeddings_create ::
  "'e embedding_service \<Rightarrow> string \<Rightarrow> 'r world \<Rightarrow> 'e list option \<times> 'r world" where
  "embeddings_create svc input w =
     (svc (length (submitted w)) input, w\<lparr>submitted := submitted w @ [input]\<rparr>)"

datatype py_exception = ServiceError | ValueError

section \<open>\<^verbatim>\<open>create_embedding\<close>\<close>

subsection \<open>\<^verbatim>\<open>export_to_pinecone.py\<close>: placeholder, truncation, three attempts\<close>

definition max_retries :: nat where
  "max_retries = 3"

text \<open>
  The loop \<^verbatim>\<open>for attempt in range(max_retries)\<close>, entered at \<open>attempt\<close>. Falling off the
  end of the loop is Python's implicit \<^verbatim>\<open>return None\<close>.
\<close>

function create_embedding_attempts ::
  "'e embedding_service \<Rightarrow> string \<Rightarrow> nat \<Rightarrow> 'r world \<Rightarrow> 'e list option \<times> 'r world" where
  "create_embedding_attempts svc input attempt w =
     (if attempt < max_retries then
        (case embeddings_create svc input w of
           (Some embedding, w1) \<Rightarrow> (Some embedding, w1)
         | (None, w1) \<Rightarrow>
             (let w2 = log_line (EmbeddingError (attempt + 1)) w1 in
              if attempt < max_retries - 1
              then create_embedding_attempts svc input (attempt + 1) (sleep (Seconds (2 ^ attempt)) w2)
              else (None, w2)))
      else (None, w))"
  by pat_completeness auto
termination
  by (relation "measure (\<lambda>(svc, input, attempt, w). max_retries - attempt)") auto

text \<open>
  The argument is an option so that Python's \<^verbatim>\<open>None\<close> (a missing text) can be passed:
  \<^verbatim>\<open>if not text\<close> holds of \<^verbatim>\<open>None\<close> and of the empty string. A string is a list of
  characters, and \<open>length\<close> and \<open>take\<close> count them as \<^verbatim>\<open>len\<close> and a slice count the
  characters of a Python string.
\<close>

definition create_embedding_rest ::
  "'e embedding_service \<Rightarrow> string option \<Rightarrow> 'r world \<Rightarrow> 'e list option \<times> 'r world" where
  "create_embedding_rest svc text_arg w =
     (let text1 = (case text_arg of
                     None \<Rightarrow> ''Empty transcript''
                   | Some t \<Rightarrow> if t = [] then ''Empty transcript'' else t);
          text2 = (if length text1 > 8000 then take 8000 text1 else text1)
      in create_embedding_attempts svc text2 0 w)"

subsection \<open>\<^verbatim>\<open>export_to_pinecone_graphql.py\<close>: one retry after two seconds\<close>

definition create_embedding_graphql ::
  "'e embedding_service \<Rightarrow> string \<Rightarrow> 'r world \<Rightarrow> (py_exception + 'e list) \<times> 'r world" where
  "create_embedding_graphql svc text_arg w =
     (case embeddings_create svc text_arg w of
        (Some embedding, w1) \<Rightarrow> (Inr embedding, w1)
      | (None, w1) \<Rightarrow>
          (case embeddings_create svc text_arg (sleep (Seconds 2) (log_line EmbeddingErrorFirst w1)) of
             (Some embedding, w2) \<Rightarrow> (Inr embedding, w2)
           | (None, w2) \<Rightarrow> (Inl ServiceError, log_line EmbeddingErrorAfterRetry w2)))"

section \<open>Filtering and resuming, the start of both \<^verbatim>\<open>main\<close> functions\<close>

text \<open>
  \<^verbatim>\<open>export_to_pinecone.py\<close>: the checkpoint is loaded as a set and the filter runs
  only when the set is not empty.
\<close>

definition remaining_ids :: "string list \<Rightarrow> string set \<Rightarrow> string list" where
  "remaining_ids transcript_ids processed_ids =
     (if processed_ids \<noteq> {} then filter (\<lambda>tid. tid \<notin> processed_ids) transcript_ids
      else transcript_ids)"

text \<open>
  \<^verbatim>\<open>export_to_pinecone_graphql.py\<close>: the checkpoint is the list of the lines of
  \<^verbatim>\<open>processed_transcripts.txt\<close>, and \<^verbatim>\<open>--force\<close> keeps every id.
\<close>

definition unprocessed_ids :: "string list \<Rightarrow> string list \<Rightarrow> bool \<Rightarrow> string list" where
  "unprocessed_ids transcript_ids processed_ids force =
     filter (\<lambda>tid. tid \<notin> set processed_ids \<or> force) transcript_ids"

text \<open>
  \<^verbatim>\<open>--resume-from\<close>, the same code in both scripts: \<^verbatim>\<open>if args.resume_from\<close> holds of a
  non-empty string; \<^verbatim>\<open>index\<close> raises \<^verbatim>\<open>ValueError\<close> when the id is not in the list, and the
  handler logs a warning and leaves the list as it is.
\<close>

definition handle_resume_from ::
  "string option \<Rightarrow> string list \<Rightarrow> 'r world \<Rightarrow> string list \<times> 'r world" where
  "handle_resume_from resume_from ids w =
     (case resume_from of
        None \<Rightarrow> (ids, w)
      | Some r \<Rightarrow>
          if r = [] then (ids, w)
          else (case list_index ids r of
                  Some resume_index \<Rightarrow>
                    (drop resume_index ids,
                     log_line (Resuming r (length (drop resume_index ids))) w)
                | None \<Rightarrow> (ids, log_line (ResumeNotFound r) w)))"

section \<open>\<^verbatim>\<open>main\<close> of \<^verbatim>\<open>export_to_pinecone_graphql.py\<close>\<close>

definition vector_id_graphql :: "string \<Rightarrow> nat \<Rightarrow> string" where
  "vector_id_graphql tid i = ''fireflies_'' @ tid @ ''_'' @ str_nat i"

record 'e output_record =
  out_id :: string
  out_values :: "'e list"
  out_metadata :: chunk_metadata
  out_text :: string

text \<open>
  What the run is given: the answers of the remote services and the command line.
  \<^verbatim>\<open>fetch_transcript_details_graphql\<close> catches every exception and answers an empty
  dictionary then; \<open>None\<close> stands for every answer that \<^verbatim>\<open>if not transcript\<close> rejects.
  The vector index is connected exactly when \<^verbatim>\<open>--namespace\<close> is a non-empty string;
  \<open>upsert_ok\<close> tells, by vector id, whether the upsert returns or raises.
  The listing (\<^verbatim>\<open>fetch_transcripts_graphql\<close>) and the lines of the checkpoint file are
  arguments of \<open>main_graphql\<close>. Writing to the two files, serialising a record and
  connecting to the index are taken to succeed, and the check of the API keys, which
  comes before any work, is left out.
\<close>

record 'e graphql_env =
  fetch_transcript_details_graphql :: "string \<Rightarrow> transcript option"
  openai_embeddings :: "'e embedding_service"
  upsert_ok :: "string \<Rightarrow> bool"
  arg_namespace :: "string option"
  arg_force :: bool
  arg_resume_from :: "string option"

definition pinecone_upsert ::
  "'e graphql_env \<Rightarrow> 'e output_record \<Rightarrow> 'e output_record world \<Rightarrow> 'e output_record world" where
  "pinecone_upsert env out w =
     (case arg_namespace env of
        None \<Rightarrow> w
      | Some ns \<Rightarrow>
          if ns = [] then w
          else if upsert_ok env (out_id out) then emit (Upsert ns out) w
          else log_line UpsertError w)"

text \<open>The loop \<^verbatim>\<open>for chunk in chunks\<close> with its \<^verbatim>\<open>try\<close> around each chunk.\<close>

fun chunk_loop ::
  "'e graphql_env \<Rightarrow> string \<Rightarrow> chunk list \<Rightarrow> 'e output_record world \<Rightarrow> 'e output_record world" where
  "chunk_loop env tid [] w = w"
| "chunk_loop env tid (c # cs) w =
     (case create_embedding_graphql (openai_embeddings env) (chunk_text c) w of
        (Inl e, w1) \<Rightarrow> chunk_loop env tid cs (log_line ChunkError w1)
      | (Inr embedding, w1) \<Rightarrow>
          (let out = \<lparr>out_id = vector_id_graphql tid (chunk_index (metadata c)),
                      out_values = embedding,
                      out_metadata = metadata c,
                      out_text = chunk_text c\<rparr>
           in chunk_loop env tid cs (pinecone_upsert env out (emit (AppendLine out) w1))))"

text \<open>The loop \<^verbatim>\<open>for transcript_id in unprocessed_ids\<close>; the first result is \<^verbatim>\<open>count\<close>.\<close>

fun transcript_loop ::
  "'e graphql_env \<Rightarrow> string list \<Rightarrow> nat \<Rightarrow> 'e output_record world \<Rightarrow> nat \<times> 'e output_record world" where
  "transcript_loop env [] count w = (count, w)"
| "transcript_loop env (tid # tids) count w =
     (let w0 = log_line (Processing tid) w in
      case fetch_transcript_details_graphql env tid of
        None \<Rightarrow> transcript_loop env tids count (log_line (FetchFailed tid) w0)
      | Some tr \<Rightarrow>
          (let chunks = process_transcript_graphql tr in
           if chunks = [] then transcript_loop env tids count (log_line (NoChunks tid) w0)
           else transcript_loop env tids (count + 1)
                  (sleep RateLimitPause (emit (MarkProcessed tid) (chunk_loop env tid chunks w0)))))"

definition main_graphql ::
  "'e graphql_env \<Rightarrow> string list \<Rightarrow> string list \<Rightarrow> nat \<times> 'e output_record world" where
  "main_graphql env processed_ids transcript_ids =
     (case handle_resume_from (arg_resume_from env)
             (unprocessed_ids transcript_ids processed_ids (arg_force env)) world0 of
        (ids, w) \<Rightarrow> transcript_loop env ids 0 w)"

section \<open>\<^verbatim>\<open>main\<close> of \<^verbatim>\<open>export_to_pinecone.py\<close>\<close>

definition vector_id_rest :: "string \<Rightarrow> string" where
  "vector_id_rest tid = ''fireflies_'' @ tid"

datatype 'a answer = Raised | Answer 'a

record participant =
  p_name :: "string option"
  p_email :: "string option"
  p_role :: "string option"

record rest_transcript =
  r_title :: "string option"
  r_date :: "string option"
  r_summary :: "string option"
  r_transcript :: "string option"
  r_duration :: "int option"

record rest_metadata =
  source_type :: string
  source_id :: string
  source_url :: string
  md_title :: string
  md_date :: "string option"
  md_summary :: string
  transcript_excerpt :: string
  duration_seconds :: int
  participant_names :: "string list"
  participant_emails :: "string list"
  topics :: "string list"
  processed_date :: string
  embedding_model :: string

record 'e pinecone_format =
  vec_id :: string
  vec_values :: "'e list"
  vec_metadata :: rest_metadata
  vec_namespace :: "string option"

datatype output_format = Jsonl | Json

text \<open>
  What the run is given. \<^verbatim>\<open>get_transcript_details\<close> and \<^verbatim>\<open>get_participants\<close> catch
  request errors only, so another exception leaves them (\<open>Raised\<close>); a caught request
  error answers \<^verbatim>\<open>None\<close> and the empty list. \<open>Answer None\<close> stands for every answer that
  \<^verbatim>\<open>if not transcript\<close> rejects. \<^verbatim>\<open>extract_topics\<close> ends in the iteration order of a
  Python set and the processing date is the clock's, so both are taken as given.
  The listing (\<^verbatim>\<open>get_all_transcript_ids\<close>) and the loaded checkpoint are arguments of
  \<open>main_rest\<close>. Writing to the files is taken to succeed; a keyboard interrupt, which
  can arrive at any point, is not modelled.
\<close>

record 'e rest_env =
  get_transcript_details :: "string \<Rightarrow> rest_transcript option answer"
  get_participants :: "string \<Rightarrow> participant list answer"
  client_embeddings :: "'e embedding_service"
  extract_topics :: "string \<Rightarrow> string \<Rightarrow> string list"
  now_isoformat :: string
  args_batch_size :: int
  args_format :: output_format
  args_resume_from :: "string option"
  args_namespace :: string

definition format_date :: "string option \<Rightarrow> string option" where
  "format_date date_str =
     (case date_str of
        None \<Rightarrow> None
      | Some d \<Rightarrow>
          if d = [] then None
          else if CHR ''T'' \<in> set d then Some d
          else Some (d @ ''T00:00:00Z''))"

definition participant_text :: "participant list \<Rightarrow> string" where
  "participant_text ps =
     str_join '', ''
       (map (\<lambda>p. get_or (p_name p) ''Unknown'' @ '' ('' @ get_or (p_email p) '''' @ '')'') ps)"

definition embedding_text :: "rest_transcript \<Rightarrow> participant list \<Rightarrow> string" where
  "embedding_text tr ps =
     ''Title: '' @ get_or (r_title tr) ''No Title'' @ ''. ''
     @ (if get_or (r_summary tr) '''' \<noteq> []
        then ''Summary: '' @ get_or (r_summary tr) '''' @ ''. '' else [])
     @ ''Participants: '' @ participant_text ps @ ''. ''
     @ (if get_or (r_transcript tr) '''' \<noteq> []
        then ''Transcript excerpt: '' @ take 1000 (get_or (r_transcript tr) '''') @ ''...''
        else [])"

definition make_pinecone_format ::
  "'e rest_env \<Rightarrow> string \<Rightarrow> rest_transcript \<Rightarrow> participant list \<Rightarrow> 'e list
     \<Rightarrow> 'e pinecone_format" where
  "make_pinecone_format env tid tr ps embedding =
     \<lparr>vec_id = vector_id_rest tid,
      vec_values = embedding,
      vec_metadata =
        \<lparr>source_type = ''fireflies'',
         source_id = tid,
         source_url = ''https://app.fireflies.ai/transcript/'' @ tid,
         md_title = get_or (r_title tr) ''No Title'',
         md_date = format_date (r_date tr),
         md_summary = get_or (r_summary tr) '''',
         transcript_excerpt = take 1000 (get_or (r_transcript tr) ''''),
         duration_seconds = get_or (r_duration tr) 0,
         participant_names = map (\<lambda>p. get_or (p_name p) ''Unknown'') ps,
         participant_emails =
           map (\<lambda>p. get_or (p_email p) '''') (filter (\<lambda>p. get_or (p_email p) '''' \<noteq> []) ps),
         topics = extract_topics env (get_or (r_summary tr) '''') (get_or (r_title tr) ''No Title''),
         processed_date = now_isoformat env,
         embedding_model = ''text-embedding-3-small''\<rparr>,
      vec_namespace = (if args_namespace env \<noteq> [] then Some (args_namespace env) else None)\<rparr>"

definition process_transcript_rest ::
  "'e rest_env \<Rightarrow> string \<Rightarrow> 'e pinecone_format world
     \<Rightarrow> (py_exception + 'e pinecone_format option) \<times> 'e pinecone_format world" where
  "process_transcript_rest env tid w =
     (let w0 = log_line (Processing tid) w in
      case get_transcript_details env tid of
        Raised \<Rightarrow> (Inl ServiceError, w0)
      | Answer None \<Rightarrow> (Inr None, w0)
      | Answer (Some tr) \<Rightarrow>
          (case get_participants env tid of
             Raised \<Rightarrow> (Inl ServiceError, w0)
           | Answer ps \<Rightarrow>
               (case create_embedding_rest (client_embeddings env) (Some (embedding_text tr ps)) w0 of
                  (None, w1) \<Rightarrow> (Inr None, log_line (EmbeddingSkipped tid) w1)
                | (Some embedding, w1) \<Rightarrow>
                    if embedding = [] then (Inr None, log_line (EmbeddingSkipped tid) w1)
                    else (Inr (Some (make_pinecone_format env tid tr ps embedding)), w1))))"

text \<open>The loop \<^verbatim>\<open>for transcript_id in batch\<close>.\<close>

fun process_batch ::
  "'e rest_env \<Rightarrow> string list \<Rightarrow> 'e pinecone_format list \<Rightarrow> string set
     \<Rightarrow> 'e pinecone_format world
     \<Rightarrow> (py_exception + 'e pinecone_format list) \<times> string set \<times> 'e pinecone_format world" where
  "process_batch env [] batch_results processed_ids w = (Inr batch_results, processed_ids, w)"
| "process_batch env (tid # batch) batch_results processed_ids w =
     (case process_transcript_rest env tid w of
        (Inl e, w1) \<Rightarrow> (Inl e, processed_ids, w1)
      | (Inr None, w1) \<Rightarrow>
          process_batch env batch batch_results processed_ids (sleep RateLimitPause w1)
      | (Inr (Some result), w1) \<Rightarrow>
          process_batch env batch (batch_results @ [result]) (insert tid processed_ids)
            (sleep RateLimitPause w1))"

definition save_checkpoint :: "string set \<Rightarrow> 'r world \<Rightarrow> 'r world" where
  "save_checkpoint processed_ids w = emit (SaveCheckpoint processed_ids) w"

definition append_batch :: "output_format \<Rightarrow> 'r list \<Rightarrow> 'r world \<Rightarrow> 'r world" where
  "append_batch fmt batch_results w =
     (if batch_results \<noteq> [] \<and> fmt = Jsonl
      then w\<lparr>effects := effects w @ map AppendLine batch_results\<rparr>
      else w)"

text \<open>
  The loop \<^verbatim>\<open>for i in range(0, len(transcript_ids), batch_size)\<close> for a positive batch
  size, written \<open>Suc k\<close>, entered at \<open>i\<close>. An exception leaves the loop with the results
  of the batches that were completed before it.
\<close>

function batch_loop ::
  "'e rest_env \<Rightarrow> string list \<Rightarrow> nat \<Rightarrow> nat \<Rightarrow> 'e pinecone_format list \<Rightarrow> string set
     \<Rightarrow> 'e pinecone_format world
     \<Rightarrow> (py_exception + unit) \<times> 'e pinecone_format list \<times> string set \<times> 'e pinecone_format world"
  where
  "batch_loop env transcript_ids k i results processed_ids w =
     (if i < length transcript_ids then
        (case process_batch env (take (Suc k) (drop i transcript_ids)) [] processed_ids w of
           (Inl e, processed_ids1, w1) \<Rightarrow> (Inl e, results, processed_ids1, w1)
         | (Inr batch_results, processed_ids1, w1) \<Rightarrow>
             batch_loop env transcript_ids k (i + Suc k) (results @ batch_results) processed_ids1
               (append_batch (args_format env) batch_results (save_checkpoint processed_ids1 w1)))
      else (Inr (), results, processed_ids, w))"
  by pat_completeness auto
termination
  by (relation "measure (\<lambda>(env, transcript_ids, k, i, rest). length transcript_ids - i)") auto

text \<open>
  \<^verbatim>\<open>range\<close> raises \<^verbatim>\<open>ValueError\<close> for a step of zero and is empty for a negative one.
\<close>

definition run_batches ::
  "'e rest_env \<Rightarrow> string list \<Rightarrow> string set \<Rightarrow> 'e pinecone_format world
     \<Rightarrow> (py_exception + unit) \<times> 'e pinecone_format list \<times> string set \<times> 'e pinecone_format world"
  where
  "run_batches env transcript_ids processed_ids w =
     (if args_batch_size env = 0 then (Inl ValueError, [], processed_ids, w)
      else if args_batch_size env < 0 then (Inr (), [], processed_ids, w)
      else batch_loop env transcript_ids (nat (args_batch_size env) - 1) 0 [] processed_ids w)"

text \<open>
  \<^verbatim>\<open>main\<close>: filter, resume, the batches inside \<^verbatim>\<open>try\<close>, the handler that logs an
  exception, and the \<^verbatim>\<open>finally\<close> block that writes the JSON file. The results are
  \<^verbatim>\<open>results\<close>, \<^verbatim>\<open>processed_ids\<close> and the world.
\<close>

definition main_rest ::
  "'e rest_env \<Rightarrow> string list \<Rightarrow> string set
     \<Rightarrow> 'e pinecone_format list \<times> string set \<times> 'e pinecone_format world" where
  "main_rest env all_ids loaded_ids =
     (case handle_resume_from (args_resume_from env) (remaining_ids all_ids loaded_ids) world0 of
        (transcript_ids, w) \<Rightarrow>
          (case run_batches env transcript_ids loaded_ids w of
             (outcome, results, processed_ids, w1) \<Rightarrow>
               (let w2 = (case outcome of Inl e \<Rightarrow> log_line RunError w1 | Inr u \<Rightarrow> w1);
                    w3 = (if args_format env = Json \<and> results \<noteq> [] then emit (WriteJson results) w2
                          else w2)
                in (results, processed_ids, w3))))"

section \<open>Reading a trace of effects\<close>

text \<open>
  What a crash after a prefix of the effects leaves behind: the transcript ids in the
  checkpoint file (the last set saved by \<^verbatim>\<open>save_checkpoint\<close>, or the lines appended to
  \<^verbatim>\<open>processed_transcripts.txt\<close>) and the records in the output file.
\<close>

fun persisted_ids :: "'r effect list \<Rightarrow> string set \<Rightarrow> string set" where
  "persisted_ids [] acc = acc"
| "persisted_ids (SaveCheckpoint ids # xs) acc = persisted_ids xs ids"
| "persisted_ids (MarkProcessed tid # xs) acc = persisted_ids xs (insert tid acc)"
| "persisted_ids (x # xs) acc = persisted_ids xs acc"

fun written_records :: "'r effect list \<Rightarrow> 'r list \<Rightarrow> 'r list" where
  "written_records [] acc = acc"
| "written_records (AppendLine r # xs) acc = written_records xs (acc @ [r])"
| "written_records (WriteJson rs # xs) acc = written_records xs rs"
| "written_records (x # xs) acc = written_records xs acc"

section \<open>Auxiliary notions for the proofs\<close>

text \<open>Reading a decimal numeral back, to show that \<^verbatim>\<open>str\<close> loses nothing.\<close>

definition digit_value :: "char \<Rightarrow> nat" where
  "digit_value c = of_char c - 48"

definition parse_nat :: "string \<Rightarrow> nat" where
  "parse_nat ds = foldl (\<lambda>a c. 10 * a + digit_value c) 0 ds"

text \<open>
  A closed block is a run: it is not empty and all its sentences carry the block's
  speaker label. The invariant of the grouping loop: the closed blocks are runs with
  neighbours of different speakers, the open block carries the current speaker, blocks are
  closed only once a sentence was read, and the last closed block differs from the
  current speaker.
\<close>

definition block_ok :: "speaker_block \<Rightarrow> bool" where
  "block_ok b \<longleftrightarrow>
     b_sentences b \<noteq> [] \<and> (\<forall>s \<in> set (b_sentences b). b_speaker b = Some (speaker_name s))"

definition loop_inv :: "string option \<Rightarrow> sentence list \<Rightarrow> speaker_block list \<Rightarrow> bool" where
  "loop_inv cur blk blocks \<longleftrightarrow>
     (\<forall>b \<in> set blocks. block_ok b) \<and> distinct_adj (map b_speaker blocks) \<and>
     (\<forall>s \<in> set blk. cur = Some (speaker_name s)) \<and>
     (blk = [] \<longrightarrow> blocks = []) \<and> (blocks \<noteq> [] \<longrightarrow> b_speaker (last blocks) \<noteq> cur)"

text \<open>The transcript ids a run started to process, read off its log.\<close>

fun processing_ids :: "log_entry list \<Rightarrow> string list" where
  "processing_ids [] = []"
| "processing_ids (Processing tid # es) = tid # processing_ids es"
| "processing_ids (e # es) = processing_ids es"

text \<open>The transcript ids a run marked as processed, in the order of the marks.\<close>

fun marked_ids :: "'r effect list \<Rightarrow> string list" where
  "marked_ids [] = []"
| "marked_ids (MarkProcessed tid # xs) = tid # marked_ids xs"
| "marked_ids (x # xs) = marked_ids xs"

section \<open>Inputs to run the definitions on\<close>

text \<open>
  A transcript of three sentences by two speakers, and for each script services that
  always answer. The numbers of an embedding are floats in the scripts; no definition
  looks at them, so the examples use integers.
\<close>

definition example_transcript :: transcript where
  "example_transcript =
     \<lparr>t_id = Some ''T1'', t_title = Some ''Weekly'', t_date = Some (DateNum 1700000000000),
      t_duration = Some 30, t_participants = Some [''ann@example.org''],
      t_sentences = Some [\<lparr>s_text = Some ''hi'', speaker_id = Some 1\<rparr>,
                          \<lparr>s_text = Some ''there'', speaker_id = Some 1\<rparr>,
                          \<lparr>s_text = Some ''hey'', speaker_id = Some 2\<rparr>]\<rparr>"

definition example_graphql_env :: "int graphql_env" where
  "example_graphql_env =
     \<lparr>fetch_transcript_details_graphql = (\<lambda>tid. Some example_transcript),
      openai_embeddings = (\<lambda>k t. Some [1, 2]),
      upsert_ok = (\<lambda>vid. True),
      arg_namespace = None,
      arg_force = False,
      arg_resume_from = None\<rparr>"

definition example_rest_transcript :: rest_transcript where
  "example_rest_transcript =
     \<lparr>r_title = Some ''Weekly'', r_date = Some ''2024-01-05'', r_summary = Some ''Plans'',
      r_transcript = Some ''hi there hey'', r_duration = Some 30\<rparr>"

definition example_rest_env :: "int rest_env" where
  "example_rest_env =
     \<lparr>get_transcript_details = (\<lambda>tid. Answer (Some example_rest_transcript)),
      get_participants =
        (\<lambda>tid. Answer [\<lparr>p_name = Some ''Ann'', p_email = Some ''ann@example.org'', p_role = None\<rparr>]),
      client_embeddings = (\<lambda>k t. Some [1, 2]),
      extract_topics = (\<lambda>summary title. []),
      now_isoformat = ''2026-01-01T00:00:00'',
      args_batch_size = 10,
      args_format = Jsonl,
      args_resume_from = None,
      args_namespace = ''''\<rparr>"

text \<open>An embedding service whose first \<open>n\<close> requests raise and whose later ones answer \<open>v\<close>.\<close>

definition failing_first :: "nat \<Rightarrow> 'e list \<Rightarrow> 'e embedding_service" where
  "failing_first n v = (\<lambda>k t. if k < n then None else Some v)"

text \<open>
  A transcript whose only sentence has an empty text, and an embedding service that
  rejects the empty string, as the remote service does.
\<close>

definition empty_text_transcript :: transcript where
  "empty_text_transcript =
     example_transcript\<lparr>t_sentences := Some [\<lparr>s_text = Some '''', speaker_id = Some 1\<rparr>]\<rparr>"

definition rejecting_empty :: "int embedding_service" where
  "rejecting_empty = (\<lambda>k t. if t = [] then None else Some [1, 2])"

definition empty_text_env :: "int graphql_env" where
  "empty_text_env =
     example_graphql_env\<lparr>fetch_transcript_details_graphql := (\<lambda>tid. Some empty_text_transcript),
                          openai_embeddings := rejecting_empty\<rparr>"

text \<open>
  A REST run with batches of one transcript in which an exception other than a request
  error leaves \<^verbatim>\<open>get_participants\<close> for the transcript D, and a GraphQL run in which the
  fetch of D fails (\<^verbatim>\<open>fetch_transcript_details_graphql\<close> catches every exception).
\<close>

definition raising_rest_env :: "int rest_env" where
  "raising_rest_env =
     example_rest_env
       \<lparr>get_participants :=
          (\<lambda>tid. if tid = ''D'' then Raised
                 else Answer [\<lparr>p_name = Some ''Ann'', p_email = Some ''ann@example.org'',
                               p_role = None\<rparr>]),
        args_batch_size := 1\<rparr>"

definition failing_fetch_graphql_env :: "int graphql_env" where
  "failing_fetch_graphql_env =
     example_graphql_env
       \<lparr>fetch_transcript_details_graphql :=
          (\<lambda>tid. if tid = ''D'' then None else Some example_transcript)\<rparr>"

section \<open>Decimal numerals\<close>

declare str_nat.simps [simp del]

lemma digit_char_cases:
  "d < 10 \<Longrightarrow> d = 0 \<or> d = 1 \<or> d = 2 \<or> d = 3 \<or> d = 4 \<or> d = 5 \<or> d = 6 \<or> d = 7 \<or> d = 8 \<or> d = (9::nat)"
  by arith

lemma digit_value_digit_char: "d < 10 \<Longrightarrow> digit_value (digit_char d) = d"
  using digit_char_cases [of d] by (auto simp: digit_value_def digit_char_def)

lemma digit_char_in: "d < 10 \<Longrightarrow> digit_char d \<in> set ''0123456789''"
  unfolding digit_char_def by (rule nth_mem) simp

lemma parse_nat_str_nat: "parse_nat (str_nat n) = n"
proof (induction n rule: str_nat.induct)
  case (1 n)
  show ?case
  proof (cases "n < 10")
    case True
    then show ?thesis
      by (simp add: str_nat.simps [of n] parse_nat_def digit_value_digit_char)
  next
    case False
    with 1 have "parse_nat (str_nat (n div 10)) = n div 10" by simp
    with False show ?thesis
      by (simp add: str_nat.simps [of n] parse_nat_def digit_value_digit_char)
  qed
qed

lemma str_nat_inj: "str_nat a = str_nat b \<longleftrightarrow> a = b"
  by (metis parse_nat_str_nat)

lemma set_str_nat: "set (str_nat n) \<subseteq> set ''0123456789''"
proof (induction n rule: str_nat.induct)
  case (1 n)
  show ?case
  proof (cases "n < 10")
    case True
    then show ?thesis using digit_char_in [of n]
      by (simp add: str_nat.simps [of n])
  next
    case False
    with 1 have "set (str_nat (n div 10)) \<subseteq> set ''0123456789''" by simp
    moreover have "digit_char (n mod 10) \<in> set ''0123456789''" by (rule digit_char_in) simp
    ultimately show ?thesis using False
      by (simp add: str_nat.simps [of n])
  qed
qed

lemma str_nat_not_Nil: "str_nat n \<noteq> []"
  by (subst str_nat.simps) simp

lemma underscore_notin_str_nat: "CHR ''_'' \<notin> set (str_nat n)"
  using set_str_nat [of n] by auto

lemma minus_notin_str_nat: "CHR ''-'' \<notin> set (str_nat n)"
  using set_str_nat [of n] by auto

lemma str_int_inj: "str_int a = str_int b \<longleftrightarrow> a = b"
proof
  assume eq: "str_int a = str_int b"
  have hd_pos: "hd (str_nat n) \<noteq> CHR ''-''" for n
    using minus_notin_str_nat [of n] str_nat_not_Nil [of n] by (cases "str_nat n") auto
  show "a = b"
  proof (cases "a < 0"; cases "b < 0")
    assume "a < 0" "b < 0"
    with eq have "nat (- a) = nat (- b)" by (simp add: str_int_def str_nat_inj)
    with \<open>a < 0\<close> \<open>b < 0\<close> show ?thesis by simp
  next
    assume "a < 0" "\<not> b < 0"
    with eq have "CHR ''-'' # str_nat (nat (- a)) = str_nat (nat b)" by (simp add: str_int_def)
    with hd_pos [of "nat b"] show ?thesis by (metis list.sel(1))
  next
    assume "\<not> a < 0" "b < 0"
    with eq have "str_nat (nat a) = CHR ''-'' # str_nat (nat (- b))" by (simp add: str_int_def)
    with hd_pos [of "nat a"] show ?thesis by (metis list.sel(1))
  next
    assume "\<not> a < 0" "\<not> b < 0"
    with eq have "nat a = nat b" by (simp add: str_int_def str_nat_inj)
    with \<open>\<not> a < 0\<close> \<open>\<not> b < 0\<close> show ?thesis by simp
  qed
qed simp

lemma split_at_first:
  assumes "x \<notin> set xs" and "x \<notin> set xs'" and "xs @ x # ys = xs' @ x # ys'"
  shows "xs = xs' \<and> ys = ys'"
proof -
  have "takeWhile (\<lambda>c. c \<noteq> x) (xs @ x # ys) = xs"
    using assms(1) by (auto simp: takeWhile_tail)
  moreover have "takeWhile (\<lambda>c. c \<noteq> x) (xs' @ x # ys') = xs'"
    using assms(2) by (auto simp: takeWhile_tail)
  ultimately have "xs = xs'" using assms(3) by simp
  with assms(3) show ?thesis by simp
qed

lemma vector_id_graphql_inj:
  "vector_id_graphql tid i = vector_id_graphql tid' i' \<longleftrightarrow> tid = tid' \<and> i = i'"
proof
  assume "vector_id_graphql tid i = vector_id_graphql tid' i'"
  then have "tid @ CHR ''_'' # str_nat i = tid' @ CHR ''_'' # str_nat i'"
    by (simp add: vector_id_graphql_def)
  then have "rev (str_nat i) @ CHR ''_'' # rev tid = rev (str_nat i') @ CHR ''_'' # rev tid'"
    by (metis rev.simps(2) rev_append rev_rev_ident append_assoc append_Cons append_Nil)
  then have "rev (str_nat i) = rev (str_nat i') \<and> rev tid = rev tid'"
    using underscore_notin_str_nat [of i] underscore_notin_str_nat [of i']
      split_at_first [of "CHR ''_''" "rev (str_nat i)" "rev (str_nat i')" "rev tid" "rev tid'"]
    by simp
  then show "tid = tid' \<and> i = i'" by (simp add: str_nat_inj)
qed simp

lemma vector_id_rest_inj: "vector_id_rest tid = vector_id_rest tid' \<longleftrightarrow> tid = tid'"
  by (simp add: vector_id_rest_def)

section \<open>The grouping loop\<close>

lemma loop_inv_init: "loop_inv None [] []"
  by (simp add: loop_inv_def)

lemma loop_inv_close:
  assumes "loop_inv cur blk blocks" and "cur \<noteq> Some (speaker_name s)" and "blk \<noteq> []"
  shows "loop_inv (Some (speaker_name s)) [s] (blocks @ [\<lparr>b_speaker = cur, b_sentences = blk\<rparr>])"
  using assms
  by (auto simp: loop_inv_def block_ok_def distinct_adj_append_iff last_map)

lemma loop_inv_extend:
  assumes "loop_inv cur blk blocks" and "\<not> (cur \<noteq> Some (speaker_name s) \<and> blk \<noteq> [])"
  shows "loop_inv (Some (speaker_name s)) (blk @ [s]) blocks"
  using assms
  by (auto simp: loop_inv_def)

lemma group_loop_inv:
  "loop_inv cur blk blocks \<Longrightarrow> group_loop ss cur blk blocks = (cur', blk', blocks')
     \<Longrightarrow> loop_inv cur' blk' blocks'"
proof (induction ss arbitrary: cur blk blocks)
  case Nil
  then show ?case by simp
next
  case (Cons s ss)
  show ?case
  proof (cases "cur \<noteq> Some (speaker_name s) \<and> blk \<noteq> []")
    case True
    with Cons.prems have "loop_inv (Some (speaker_name s)) [s] (blocks @ [\<lparr>b_speaker = cur, b_sentences = blk\<rparr>])"
      by (simp add: loop_inv_close)
    moreover from True Cons.prems
    have "group_loop ss (Some (speaker_name s)) [s] (blocks @ [\<lparr>b_speaker = cur, b_sentences = blk\<rparr>]) = (cur', blk', blocks')"
      by simp
    ultimately show ?thesis by (rule Cons.IH)
  next
    case False
    with Cons.prems have "loop_inv (Some (speaker_name s)) (blk @ [s]) blocks"
      using loop_inv_extend by blast
    moreover from False Cons.prems
    have "group_loop ss (Some (speaker_name s)) (blk @ [s]) blocks = (cur', blk', blocks')"
      by auto
    ultimately show ?thesis by (rule Cons.IH)
  qed
qed

lemma group_loop_concat:
  "group_loop ss cur blk blocks = (cur', blk', blocks')
     \<Longrightarrow> concat (map b_sentences blocks') @ blk' = concat (map b_sentences blocks) @ blk @ ss"
  by (induction ss arbitrary: cur blk blocks) (auto split: if_splits)

lemma group_by_speaker_concat: "concat (map b_sentences (group_by_speaker ss)) = ss"
proof -
  obtain cur blk blocks where g: "group_loop ss None [] [] = (cur, blk, blocks)"
    by (cases "group_loop ss None [] []") auto
  from group_loop_concat [OF g] show ?thesis
    by (auto simp: group_by_speaker_def g)
qed

lemma group_by_speaker_ok:
  "(\<forall>b \<in> set (group_by_speaker ss). block_ok b) \<and> distinct_adj (map b_speaker (group_by_speaker ss))"
proof -
  obtain cur blk blocks where g: "group_loop ss None [] [] = (cur, blk, blocks)"
    by (cases "group_loop ss None [] []") auto
  from group_loop_inv [OF loop_inv_init g] have inv: "loop_inv cur blk blocks" .
  show ?thesis
  proof (cases "blk = []")
    case True
    with inv show ?thesis by (simp add: group_by_speaker_def g loop_inv_def)
  next
    case False
    with inv show ?thesis
      by (auto simp: group_by_speaker_def g loop_inv_def block_ok_def distinct_adj_append_iff last_map)
  qed
qed

lemma group_by_speaker_Nil_iff: "group_by_speaker ss = [] \<longleftrightarrow> ss = []"
proof
  assume "group_by_speaker ss = []"
  with group_by_speaker_concat [of ss] show "ss = []" by simp
next
  assume "ss = []" then show "group_by_speaker ss = []" by (simp add: group_by_speaker_def)
qed

lemma length_process_transcript_graphql:
  "length (process_transcript_graphql tr) = length (group_by_speaker (get_or (t_sentences tr) []))"
  by (simp add: process_transcript_graphql_def Let_def)

lemma nth_process_transcript_graphql:
  "i < length (group_by_speaker (get_or (t_sentences tr) [])) \<Longrightarrow>
   process_transcript_graphql tr ! i = make_chunk tr (group_by_speaker (get_or (t_sentences tr) [])) i"
  by (simp add: process_transcript_graphql_def Let_def)

lemma map_chunk_index:
  "map (\<lambda>c. chunk_index (metadata c)) (process_transcript_graphql tr) = [0..<length (process_transcript_graphql tr)]"
  by (simp add: process_transcript_graphql_def Let_def make_chunk_def o_def map_idI)

lemma map_chunk_text:
  "map chunk_text (process_transcript_graphql tr) = map block_text (group_by_speaker (get_or (t_sentences tr) []))"
  by (rule nth_equalityI) (simp_all add: length_process_transcript_graphql nth_process_transcript_graphql make_chunk_def)

lemma map_chunk_speaker:
  "map (\<lambda>c. speaker (metadata c)) (process_transcript_graphql tr) = map b_speaker (group_by_speaker (get_or (t_sentences tr) []))"
  by (rule nth_equalityI) (simp_all add: length_process_transcript_graphql nth_process_transcript_graphql make_chunk_def)

lemma total_chunks_all:
  "c \<in> set (process_transcript_graphql tr) \<Longrightarrow> total_chunks (metadata c) = length (group_by_speaker (get_or (t_sentences tr) []))"
  by (auto simp: process_transcript_graphql_def Let_def make_chunk_def)

lemma group_loop_speakers:
  "blk \<noteq> [] \<Longrightarrow> group_loop ss (Some l) blk blocks = (cur', blk', blocks') \<Longrightarrow>
     blk' \<noteq> [] \<and>
     map b_speaker blocks' @ [cur'] =
       map b_speaker blocks @ map Some (remdups_adj (l # map speaker_name ss))"
proof (induction ss arbitrary: l blk blocks)
  case Nil
  then show ?case by simp
next
  case (Cons s ss)
  show ?case
  proof (cases "l = speaker_name s")
    case True
    with Cons.prems have "group_loop ss (Some (speaker_name s)) (blk @ [s]) blocks = (cur', blk', blocks')"
      by simp
    from Cons.IH [OF _ this] True show ?thesis by simp
  next
    case False
    with Cons.prems have "group_loop ss (Some (speaker_name s)) [s]
        (blocks @ [\<lparr>b_speaker = Some l, b_sentences = blk\<rparr>]) = (cur', blk', blocks')"
      by simp
    from Cons.IH [OF _ this] False show ?thesis by simp
  qed
qed

lemma group_by_speaker_speakers:
  "map b_speaker (group_by_speaker ss) = map Some (remdups_adj (map speaker_name ss))"
proof (cases ss)
  case Nil
  then show ?thesis by (simp add: group_by_speaker_def)
next
  case (Cons s rest)
  obtain cur blk blocks where g: "group_loop rest (Some (speaker_name s)) [s] [] = (cur, blk, blocks)"
    by (cases "group_loop rest (Some (speaker_name s)) [s] []") auto
  from group_loop_speakers [OF _ g] have "blk \<noteq> []"
    and "map b_speaker blocks @ [cur] = map Some (remdups_adj (speaker_name s # map speaker_name rest))"
    by simp_all
  with Cons g show ?thesis by (simp add: group_by_speaker_def)
qed

lemma length_group_by_speaker:
  "length (group_by_speaker ss) = length (remdups_adj (map speaker_name ss))"
  using arg_cong [OF group_by_speaker_speakers [of ss], of length] by simp

lemma str_join_append:
  "xs \<noteq> [] \<Longrightarrow> ys \<noteq> [] \<Longrightarrow> str_join sep (xs @ ys) = str_join sep xs @ sep @ str_join sep ys"
proof (induction sep xs rule: str_join.induct)
  case (1 sep)
  then show ?case by simp
next
  case (2 sep p)
  then show ?case by (cases ys) simp_all
next
  case (3 sep p q ps)
  then show ?case by simp
qed

lemma str_join_concat:
  "\<forall>xs \<in> set xss. xs \<noteq> [] \<Longrightarrow>
     str_join sep (map (str_join sep) xss) = str_join sep (concat xss)"
proof (induction xss rule: induct_list012)
  case 1
  then show ?case by simp
next
  case (2 xs)
  then show ?case by simp
next
  case (3 xs ys rest)
  from 3 have ne: "xs \<noteq> []" "concat (ys # rest) \<noteq> []" by auto
  from 3 have IH: "str_join sep (map (str_join sep) (ys # rest)) = str_join sep (concat (ys # rest))"
    by simp
  have "str_join sep (map (str_join sep) (xs # ys # rest))
      = str_join sep xs @ sep @ str_join sep (map (str_join sep) (ys # rest))" by simp
  also have "\<dots> = str_join sep xs @ sep @ str_join sep (concat (ys # rest))" by (simp only: IH)
  also have "\<dots> = str_join sep (xs @ concat (ys # rest))"
    using str_join_append [OF ne] by simp
  finally show ?case by simp
qed

lemma chunk_texts_joined:
  "str_join '' '' (map chunk_text (process_transcript_graphql tr))
     = str_join '' '' (map (\<lambda>s. get_or (s_text s) '''') (get_or (t_sentences tr) []))"
proof -
  let ?ss = "get_or (t_sentences tr) []"
  let ?bs = "group_by_speaker ?ss"
  let ?f = "\<lambda>s. get_or (s_text s) ''''"
  have ne: "\<forall>xs \<in> set (map (\<lambda>b. map ?f (b_sentences b)) ?bs). xs \<noteq> []"
    using group_by_speaker_ok [of ?ss] by (auto simp: block_ok_def)
  have "map chunk_text (process_transcript_graphql tr)
      = map (str_join '' '') (map (\<lambda>b. map ?f (b_sentences b)) ?bs)"
    by (simp add: map_chunk_text block_text_def o_def)
  then have "str_join '' '' (map chunk_text (process_transcript_graphql tr))
      = str_join '' '' (concat (map (\<lambda>b. map ?f (b_sentences b)) ?bs))"
    using str_join_concat [OF ne, of "'' ''"] by simp
  also have "concat (map (\<lambda>b. map ?f (b_sentences b)) ?bs) = map ?f (concat (map b_sentences ?bs))"
    by (simp add: map_concat o_def)
  also have "\<dots> = map ?f ?ss" by (simp add: group_by_speaker_concat)
  finally show ?thesis .
qed

section \<open>The chunker on the example transcript\<close>

lemma example_blocks:
  "group_by_speaker (get_or (t_sentences example_transcript) []) =
     [\<lparr>b_speaker = Some ''Speaker 1'',
       b_sentences = [\<lparr>s_text = Some ''hi'', speaker_id = Some 1\<rparr>,
                      \<lparr>s_text = Some ''there'', speaker_id = Some 1\<rparr>]\<rparr>,
      \<lparr>b_speaker = Some ''Speaker 2'',
       b_sentences = [\<lparr>s_text = Some ''hey'', speaker_id = Some 2\<rparr>]\<rparr>]"
  by (simp add: example_transcript_def get_or_def group_by_speaker_def speaker_name_def
      str_int_def str_nat.simps digit_char_def)

lemma example_chunks:
  "process_transcript_graphql example_transcript =
     [\<lparr>chunk_text = ''hi there'',
       metadata = \<lparr>transcript_id = ''T1'', title = ''Weekly'', speaker = Some ''Speaker 1'',
         prev_speaker = Some ''None'', next_speaker = Some ''Speaker 2'',
         participants = [''ann@example.org''], recording_date = DateNum 1700000000000,
         duration = 30, chunk_index = 0, total_chunks = 2, source = ''fireflies''\<rparr>\<rparr>,
      \<lparr>chunk_text = ''hey'',
       metadata = \<lparr>transcript_id = ''T1'', title = ''Weekly'', speaker = Some ''Speaker 2'',
         prev_speaker = Some ''Speaker 1'', next_speaker = Some ''None'',
         participants = [''ann@example.org''], recording_date = DateNum 1700000000000,
         duration = 30, chunk_index = 1, total_chunks = 2, source = ''fireflies''\<rparr>\<rparr>]"
  unfolding process_transcript_graphql_def example_blocks Let_def
  by (simp add: make_chunk_def block_text_def get_or_def example_transcript_def)

section \<open>What the loops of the GraphQL script leave in the world\<close>

lemma world_logged [simp]:
  "logged (log_line e w) = logged w @ [e]"
  "logged (sleep p w) = logged w"
  "logged (emit x w) = logged w"
  by (simp_all add: log_line_def sleep_def emit_def)

lemma world_effects [simp]:
  "effects (log_line e w) = effects w"
  "effects (sleep p w) = effects w"
  "effects (emit x w) = effects w @ [x]"
  by (simp_all add: log_line_def sleep_def emit_def)

lemma world_submitted [simp]:
  "submitted (log_line e w) = submitted w"
  "submitted (sleep p w) = submitted w"
  "submitted (emit x w) = submitted w"
  by (simp_all add: log_line_def sleep_def emit_def)

lemma world_slept [simp]:
  "slept (log_line e w) = slept w"
  "slept (sleep p w) = slept w @ [p]"
  "slept (emit x w) = slept w"
  by (simp_all add: log_line_def sleep_def emit_def)

lemma embeddings_create_world [simp]:
  "logged (snd (embeddings_create svc t w)) = logged w"
  "effects (snd (embeddings_create svc t w)) = effects w"
  "slept (snd (embeddings_create svc t w)) = slept w"
  "submitted (snd (embeddings_create svc t w)) = submitted w @ [t]"
  "fst (embeddings_create svc t w) = svc (length (submitted w)) t"
  by (simp_all add: embeddings_create_def)

lemma processing_ids_append:
  "processing_ids (xs @ ys) = processing_ids xs @ processing_ids ys"
  by (induction xs rule: processing_ids.induct) simp_all

lemma create_embedding_graphql_frame:
  "effects (snd (create_embedding_graphql svc t w)) = effects w \<and>
   processing_ids (logged (snd (create_embedding_graphql svc t w))) = processing_ids (logged w)"
  by (simp add: create_embedding_graphql_def embeddings_create_def processing_ids_append
      split: option.split)


lemma pinecone_upsert_frame:
  "processing_ids (logged (pinecone_upsert env out w)) = processing_ids (logged w) \<and>
   (AppendLine r \<in> set (effects (pinecone_upsert env out w)) \<longleftrightarrow> AppendLine r \<in> set (effects w))"
  by (simp add: pinecone_upsert_def processing_ids_append split: option.split)

lemma chunk_loop_processing:
  "processing_ids (logged (chunk_loop env tid cs w)) = processing_ids (logged w)"
proof (induction cs arbitrary: w)
  case Nil
  then show ?case by simp
next
  case (Cons c cs)
  obtain r w1 where ce: "create_embedding_graphql (openai_embeddings env) (chunk_text c) w = (r, w1)"
    by (cases "create_embedding_graphql (openai_embeddings env) (chunk_text c) w") auto
  from create_embedding_graphql_frame [of "openai_embeddings env" "chunk_text c" w] ce
  have w1: "processing_ids (logged w1) = processing_ids (logged w)" by simp
  show ?case
  proof (cases r)
    case (Inl e)
    with ce w1 show ?thesis by (simp add: Cons.IH processing_ids_append)
  next
    case (Inr embedding)
    with ce w1 show ?thesis by (simp add: Let_def Cons.IH pinecone_upsert_frame)
  qed
qed

lemma chunk_loop_appended:
  "AppendLine out \<in> set (effects (chunk_loop env tid cs w)) \<Longrightarrow>
     AppendLine out \<in> set (effects w) \<or>
     (\<exists>c \<in> set cs. out_id out = vector_id_graphql tid (chunk_index (metadata c)) \<and>
        out_metadata out = metadata c \<and> out_text out = chunk_text c)"
proof (induction cs arbitrary: w)
  case Nil
  then show ?case by simp
next
  case (Cons c cs)
  obtain r w1 where ce: "create_embedding_graphql (openai_embeddings env) (chunk_text c) w = (r, w1)"
    by (cases "create_embedding_graphql (openai_embeddings env) (chunk_text c) w") auto
  from create_embedding_graphql_frame [of "openai_embeddings env" "chunk_text c" w] ce
  have w1: "effects w1 = effects w" by simp
  show ?case
  proof (cases r)
    case (Inl e)
    with ce Cons.prems have "AppendLine out \<in> set (effects (chunk_loop env tid cs (log_line ChunkError w1)))"
      by simp
    from Cons.IH [OF this] w1 show ?thesis by auto
  next
    case (Inr embedding)
    define o1 where "o1 = \<lparr>out_id = vector_id_graphql tid (chunk_index (metadata c)),
        out_values = embedding, out_metadata = metadata c, out_text = chunk_text c\<rparr>"
    from Inr ce Cons.prems
    have "AppendLine out \<in> set (effects (chunk_loop env tid cs (pinecone_upsert env o1 (emit (AppendLine o1) w1))))"
      by (simp add: o1_def Let_def)
    from Cons.IH [OF this]
    consider "AppendLine out \<in> set (effects (pinecone_upsert env o1 (emit (AppendLine o1) w1)))"
      | "\<exists>c \<in> set cs. out_id out = vector_id_graphql tid (chunk_index (metadata c)) \<and>
        out_metadata out = metadata c \<and> out_text out = chunk_text c" by blast
    then show ?thesis
    proof cases
      case 1
      then have "AppendLine out \<in> set (effects (emit (AppendLine o1) w1))"
        by (simp add: pinecone_upsert_frame)
      with w1 have "AppendLine out \<in> set (effects w) \<or> out = o1" by auto
      then show ?thesis by (auto simp: o1_def)
    next
      case 2
      then show ?thesis by auto
    qed
  qed
qed

lemma transcript_loop_processing:
  "processing_ids (logged (snd (transcript_loop env ids count w))) = processing_ids (logged w) @ ids"
proof (induction ids arbitrary: count w)
  case Nil
  then show ?case by simp
next
  case (Cons tid tids)
  show ?case
    by (simp add: Let_def Cons.IH processing_ids_append chunk_loop_processing split: option.split)
qed

lemma handle_resume_from_processing:
  "processing_ids (logged (snd (handle_resume_from r ids w))) = processing_ids (logged w)"
  by (simp add: handle_resume_from_def processing_ids_append split: option.split)

lemma main_graphql_processing:
  "processing_ids (logged (snd (main_graphql env processed transcript_ids))) =
     fst (handle_resume_from (arg_resume_from env)
            (unprocessed_ids transcript_ids processed (arg_force env)) (world0 :: 'a output_record world))"
    for env :: "'a graphql_env"
proof -
  obtain ids w where h: "handle_resume_from (arg_resume_from env)
            (unprocessed_ids transcript_ids processed (arg_force env)) (world0 :: 'a output_record world) = (ids, w)"
    by (cases "handle_resume_from (arg_resume_from env)
            (unprocessed_ids transcript_ids processed (arg_force env)) (world0 :: 'a output_record world)") auto
  from handle_resume_from_processing [of "arg_resume_from env"
      "unprocessed_ids transcript_ids processed (arg_force env)" "world0 :: 'a output_record world"] h
  have "processing_ids (logged w) = []" by (simp add: world0_def)
  with h show ?thesis by (simp add: main_graphql_def transcript_loop_processing)
qed

section \<open>What the loops of the REST script leave in the world\<close>

declare create_embedding_attempts.simps [simp del]
declare batch_loop.simps [simp del]

lemma create_embedding_attempts_frame:
  "effects (snd (create_embedding_attempts svc t attempt w)) = effects w \<and>
   processing_ids (logged (snd (create_embedding_attempts svc t attempt w))) = processing_ids (logged w)"
proof (induction svc t attempt w rule: create_embedding_attempts.induct)
  case (1 svc input attempt w)
  show ?case
  proof (cases "attempt < max_retries")
    case False
    then show ?thesis by (simp add: create_embedding_attempts.simps [of svc input attempt w])
  next
    case True
    show ?thesis
    proof (cases "svc (length (submitted w)) input")
      case (Some e)
      with True show ?thesis
        by (simp add: create_embedding_attempts.simps [of svc input attempt w] embeddings_create_def)
    next
      case None
      show ?thesis
      proof (cases "attempt < max_retries - 1")
        case False
        with True None show ?thesis
          by (simp add: create_embedding_attempts.simps [of svc input attempt w]
              embeddings_create_def processing_ids_append)
      next
        case lt: True
        have ec: "embeddings_create svc input w = (None, w\<lparr>submitted := submitted w @ [input]\<rparr>)"
          using None by (simp add: embeddings_create_def)
        from "1.IH" [OF True ec [symmetric] refl refl lt]
        show ?thesis using True None lt
          by (simp add: create_embedding_attempts.simps [of svc input attempt w]
              embeddings_create_def processing_ids_append)
      qed
    qed
  qed
qed

lemma create_embedding_rest_frame:
  "effects (snd (create_embedding_rest svc t w)) = effects w \<and>
   processing_ids (logged (snd (create_embedding_rest svc t w))) = processing_ids (logged w)"
  by (simp add: create_embedding_rest_def Let_def create_embedding_attempts_frame)

lemma process_transcript_rest_frame:
  "effects (snd (process_transcript_rest env tid w)) = effects w \<and>
   processing_ids (logged (snd (process_transcript_rest env tid w))) = processing_ids (logged w) @ [tid]"
proof (cases "get_transcript_details env tid")
  case Raised
  then show ?thesis by (simp add: process_transcript_rest_def processing_ids_append)
next
  case (Answer d)
  show ?thesis
  proof (cases d)
    case None
    with Answer show ?thesis by (simp add: process_transcript_rest_def processing_ids_append)
  next
    case (Some tr)
    show ?thesis
    proof (cases "get_participants env tid")
      case Raised
      with Answer Some show ?thesis by (simp add: process_transcript_rest_def processing_ids_append)
    next
      case ps: (Answer ps)
      obtain r w1 where ce: "create_embedding_rest (client_embeddings env)
          (Some (embedding_text tr ps)) (log_line (Processing tid) w) = (r, w1)"
        by (cases "create_embedding_rest (client_embeddings env)
          (Some (embedding_text tr ps)) (log_line (Processing tid) w)") auto
      from create_embedding_rest_frame [of "client_embeddings env" "Some (embedding_text tr ps)"
          "log_line (Processing tid) w"] ce
      have w1: "effects w1 = effects w"
        "processing_ids (logged w1) = processing_ids (logged w) @ [tid]"
        by (simp_all add: processing_ids_append)
      show ?thesis
        using Answer Some ps ce w1
        by (cases r) (simp_all add: process_transcript_rest_def processing_ids_append)
    qed
  qed
qed

lemma process_batch_noraise:
  assumes "\<forall>tid \<in> set batch. get_transcript_details env tid \<noteq> Raised \<and> get_participants env tid \<noteq> Raised"
  shows "\<exists>rs. fst (process_batch env batch br P w) = Inr rs"
  using assms
proof (induction batch arbitrary: br P w)
  case Nil
  then show ?case by simp
next
  case (Cons tid batch)
  from Cons.prems have nr: "get_transcript_details env tid \<noteq> Raised" "get_participants env tid \<noteq> Raised"
    and rest: "\<forall>tid \<in> set batch. get_transcript_details env tid \<noteq> Raised \<and> get_participants env tid \<noteq> Raised"
    by simp_all
  obtain r w1 where pt: "process_transcript_rest env tid w = (r, w1)"
    by (cases "process_transcript_rest env tid w") auto
  from nr pt have "\<exists>x. r = Inr x"
    by (auto simp: process_transcript_rest_def Let_def split: answer.splits option.splits prod.splits if_splits)
  then obtain x where r: "r = Inr x" ..
  show ?case
    using pt r Cons.IH [OF rest] by (cases x) simp_all
qed

lemma process_batch_frame:
  "fst (process_batch env batch br P w) = Inr rs \<Longrightarrow>
     effects (snd (snd (process_batch env batch br P w))) = effects w \<and>
     processing_ids (logged (snd (snd (process_batch env batch br P w)))) = processing_ids (logged w) @ batch"
proof (induction batch arbitrary: br P w)
  case Nil
  then show ?case by simp
next
  case (Cons tid batch)
  obtain r w1 where pt: "process_transcript_rest env tid w = (r, w1)"
    by (cases "process_transcript_rest env tid w") auto
  from process_transcript_rest_frame [of env tid w] pt
  have w1: "effects w1 = effects w" "processing_ids (logged w1) = processing_ids (logged w) @ [tid]"
    by simp_all
  show ?case
  proof (cases r)
    case (Inl e)
    with pt Cons.prems show ?thesis by simp
  next
    case (Inr x)
    show ?thesis
    proof (cases x)
      case None
      with Inr pt Cons.prems
      have "fst (process_batch env batch br P (sleep RateLimitPause w1)) = Inr rs" by simp
      from Cons.IH [OF this] Inr None pt w1 show ?thesis by simp
    next
      case (Some res)
      with Inr pt Cons.prems
      have "fst (process_batch env batch (br @ [res]) (insert tid P) (sleep RateLimitPause w1)) = Inr rs"
        by simp
      from Cons.IH [OF this] Inr Some pt w1 show ?thesis by simp
    qed
  qed
qed

lemma append_batch_logged [simp]: "logged (append_batch fmt rs w) = logged w"
  by (simp add: append_batch_def)

lemma save_checkpoint_logged [simp]: "logged (save_checkpoint P w) = logged w"
  by (simp add: save_checkpoint_def)

lemma batch_loop_processing:
  assumes "\<forall>tid \<in> set transcript_ids. get_transcript_details env tid \<noteq> Raised \<and> get_participants env tid \<noteq> Raised"
  shows "fst (batch_loop env transcript_ids k i results P w) = Inr () \<and>
     processing_ids (logged (snd (snd (snd (batch_loop env transcript_ids k i results P w)))))
       = processing_ids (logged w) @ drop i transcript_ids"
  using assms
proof (induction env transcript_ids k i results P w rule: batch_loop.induct)
  case (1 env transcript_ids k i results P w)
  show ?case
  proof (cases "i < length transcript_ids")
    case False
    then show ?thesis by (simp add: batch_loop.simps [of env transcript_ids k i results P w])
  next
    case True
    let ?batch = "take (Suc k) (drop i transcript_ids)"
    have nr: "\<forall>tid \<in> set ?batch. get_transcript_details env tid \<noteq> Raised \<and> get_participants env tid \<noteq> Raised"
      using "1.prems" by (meson in_set_takeD in_set_dropD)
    obtain r P1 w1 where pb: "process_batch env ?batch [] P w = (r, P1, w1)"
      by (cases "process_batch env ?batch [] P w") auto
    from process_batch_noraise [OF nr, of "[]" P w] pb obtain rs where r: "r = Inr rs" by auto
    from process_batch_frame [of env ?batch "[]" P w rs] pb r
    have w1: "processing_ids (logged w1) = processing_ids (logged w) @ ?batch" by simp
    have split: "?batch @ drop (i + Suc k) transcript_ids = drop i transcript_ids"
      by (metis add.commute drop_drop append_take_drop_id)
    from "1.IH" [OF True pb [symmetric] _ refl, of rs] r "1.prems"
    have IH: "fst (batch_loop env transcript_ids k (i + Suc k) (results @ rs) P1
            (append_batch (args_format env) rs (save_checkpoint P1 w1))) = Inr () \<and>
        processing_ids (logged (snd (snd (snd (batch_loop env transcript_ids k (i + Suc k) (results @ rs) P1
            (append_batch (args_format env) rs (save_checkpoint P1 w1)))))))
         = processing_ids (logged w1) @ drop (i + Suc k) transcript_ids"
      by simp
    show ?thesis
      using True pb r IH w1 split
      by (simp add: batch_loop.simps [of env transcript_ids k i results P w])
  qed
qed

lemma main_rest_processing:
  fixes env :: "'a rest_env"
  assumes "0 < args_batch_size env"
    and "\<forall>tid \<in> set all_ids. get_transcript_details env tid \<noteq> Raised \<and> get_participants env tid \<noteq> Raised"
  shows "processing_ids (logged (snd (snd (main_rest env all_ids loaded)))) =
     fst (handle_resume_from (args_resume_from env) (remaining_ids all_ids loaded)
            (world0 :: 'a pinecone_format world))"
proof -
  let ?w0 = "world0 :: 'a pinecone_format world"
  obtain ids w where h: "handle_resume_from (args_resume_from env) (remaining_ids all_ids loaded) ?w0 = (ids, w)"
    by (cases "handle_resume_from (args_resume_from env) (remaining_ids all_ids loaded) ?w0") auto
  from handle_resume_from_processing [of "args_resume_from env" "remaining_ids all_ids loaded" ?w0] h
  have w: "processing_ids (logged w) = []" by (simp add: world0_def)
  have sub: "set ids \<subseteq> set all_ids"
    using h by (auto simp: handle_resume_from_def remaining_ids_def
        split: option.splits if_splits dest: in_set_dropD)
  with assms(2) have nr: "\<forall>tid \<in> set ids. get_transcript_details env tid \<noteq> Raised \<and> get_participants env tid \<noteq> Raised"
    by blast
  obtain r results P w1 where bl: "batch_loop env ids (nat (args_batch_size env) - 1) 0 [] loaded w = (r, results, P, w1)"
    by (cases "batch_loop env ids (nat (args_batch_size env) - 1) 0 [] loaded w") auto
  from batch_loop_processing [OF nr, of "nat (args_batch_size env) - 1" 0 "[]" loaded w] bl w
  have r: "r = Inr ()" and w1: "processing_ids (logged w1) = ids" by simp_all
  show ?thesis
    using assms(1) h bl r w1
    by (simp add: main_rest_def run_batches_def Let_def)
qed

section \<open>Filtering and resuming\<close>

lemma list_index_None: "list_index xs x = None \<longleftrightarrow> x \<notin> set xs"
  by (induction xs) (auto split: option.splits)

lemma list_index_Some:
  "list_index xs x = Some k \<Longrightarrow> k < length xs \<and> xs ! k = x \<and> x \<notin> set (take k xs)"
proof (induction xs arbitrary: k)
  case Nil
  then show ?case by simp
next
  case (Cons y ys)
  show ?case
  proof (cases "y = x")
    case True
    with Cons.prems show ?thesis by simp
  next
    case False
    with Cons.prems obtain j where j: "list_index ys x = Some j" and k: "k = Suc j"
      by (auto split: option.splits)
    from Cons.IH [OF j] False k show ?thesis by simp
  qed
qed

lemma remaining_ids_filter: "remaining_ids ids P = filter (\<lambda>tid. tid \<notin> P) ids"
  by (simp add: remaining_ids_def)

lemma handle_resume_from_absent:
  "r \<noteq> [] \<Longrightarrow> r \<notin> set ids \<Longrightarrow>
     handle_resume_from (Some r) ids w = (ids, log_line (ResumeNotFound r) w)"
  using list_index_None [of ids r] by (simp add: handle_resume_from_def)

lemma handle_resume_from_present:
  assumes "r \<noteq> []" and "r \<in> set ids"
  shows "\<exists>skipped. ids = skipped @ fst (handle_resume_from (Some r) ids w) \<and> r \<notin> set skipped
           \<and> hd (fst (handle_resume_from (Some r) ids w)) = r"
proof -
  from assms(2) obtain k where k: "list_index ids r = Some k"
    using list_index_None [of ids r] by (cases "list_index ids r") auto
  from list_index_Some [OF k] have lt: "k < length ids" and at: "ids ! k = r"
    and notin: "r \<notin> set (take k ids)" by simp_all
  from assms(1) k have res: "fst (handle_resume_from (Some r) ids w) = drop k ids"
    by (simp add: handle_resume_from_def)
  have "ids = take k ids @ drop k ids" by simp
  moreover from lt at have "hd (drop k ids) = r" by (simp add: hd_drop_conv_nth)
  ultimately show ?thesis using notin res by metis
qed

lemma process_transcript_rest_vec_id:
  "fst (process_transcript_rest env tid w) = Inr (Some res) \<Longrightarrow> vec_id res = vector_id_rest tid"
  by (auto simp: process_transcript_rest_def Let_def make_pinecone_format_def
      split: answer.splits option.splits prod.splits if_splits)

lemma example_chunk_effects:
  "map out_id (written_records
       (effects (chunk_loop example_graphql_env ''T1''
                  (process_transcript_graphql example_transcript) world0)) [])
     = [''fireflies_T1_0'', ''fireflies_T1_1'']"
  by (simp add: example_chunks example_graphql_env_def create_embedding_graphql_def
      embeddings_create_def pinecone_upsert_def world0_def emit_def Let_def
      vector_id_graphql_def str_nat.simps digit_char_def)

section \<open>Retries of \<^verbatim>\<open>create_embedding\<close>\<close>

lemma create_embedding_attempts_bound:
  "length (submitted (snd (create_embedding_attempts svc t attempt w)))
     \<le> length (submitted w) + (max_retries - attempt)"
proof (induction svc t attempt w rule: create_embedding_attempts.induct)
  case (1 svc input attempt w)
  show ?case
  proof (cases "attempt < max_retries")
    case False
    then show ?thesis by (simp add: create_embedding_attempts.simps [of svc input attempt w])
  next
    case True
    show ?thesis
    proof (cases "svc (length (submitted w)) input")
      case (Some e)
      with True show ?thesis
        by (simp add: create_embedding_attempts.simps [of svc input attempt w] embeddings_create_def)
    next
      case None
      show ?thesis
      proof (cases "attempt < max_retries - 1")
        case False
        with True None show ?thesis
          by (simp add: create_embedding_attempts.simps [of svc input attempt w]
              embeddings_create_def)
      next
        case lt: True
        have ec: "embeddings_create svc input w = (None, w\<lparr>submitted := submitted w @ [input]\<rparr>)"
          using None by (simp add: embeddings_create_def)
        from "1.IH" [OF True ec [symmetric] refl refl lt]
        show ?thesis using True None lt
          by (simp add: create_embedding_attempts.simps [of svc input attempt w]
              embeddings_create_def)
      qed
    qed
  qed
qed

lemma create_embedding_rest_as_is:
  "t \<noteq> [] \<Longrightarrow> length t \<le> 8000 \<Longrightarrow>
     create_embedding_rest svc (Some t) w = create_embedding_attempts svc t 0 w"
  by (simp add: create_embedding_rest_def)

lemma rest_two_failures_then_success:
  assumes "svc (length (submitted w)) t = None" and "svc (length (submitted w) + 1) t = None"
    and "svc (length (submitted w) + 2) t = Some v"
  shows "create_embedding_attempts svc t 0 w =
     (Some v, w\<lparr>submitted := submitted w @ [t, t, t],
                 slept := slept w @ [Seconds 1, Seconds 2],
                 logged := logged w @ [EmbeddingError 1, EmbeddingError 2]\<rparr>)"
  using assms
  by (simp add: create_embedding_attempts.simps max_retries_def embeddings_create_def
      log_line_def sleep_def)

lemma rest_three_failures:
  assumes "svc (length (submitted w)) t = None" and "svc (length (submitted w) + 1) t = None"
    and "svc (length (submitted w) + 2) t = None"
  shows "create_embedding_attempts svc t 0 w =
     (None, w\<lparr>submitted := submitted w @ [t, t, t],
               slept := slept w @ [Seconds 1, Seconds 2],
               logged := logged w @ [EmbeddingError 1, EmbeddingError 2, EmbeddingError 3]\<rparr>)"
  using assms
  by (simp add: create_embedding_attempts.simps max_retries_def embeddings_create_def
      log_line_def sleep_def)

lemma graphql_one_failure_then_success:
  assumes "svc (length (submitted w)) t = None" and "svc (length (submitted w) + 1) t = Some v"
  shows "create_embedding_graphql svc t w =
     (Inr v, w\<lparr>submitted := submitted w @ [t, t],
                slept := slept w @ [Seconds 2],
                logged := logged w @ [EmbeddingErrorFirst]\<rparr>)"
  using assms
  by (simp add: create_embedding_graphql_def embeddings_create_def log_line_def sleep_def)

lemma graphql_two_failures:
  assumes "svc (length (submitted w)) t = None" and "svc (length (submitted w) + 1) t = None"
  shows "create_embedding_graphql svc t w =
     (Inl ServiceError, w\<lparr>submitted := submitted w @ [t, t],
                slept := slept w @ [Seconds 2],
                logged := logged w @ [EmbeddingErrorFirst, EmbeddingErrorAfterRetry]\<rparr>)"
  using assms
  by (simp add: create_embedding_graphql_def embeddings_create_def log_line_def sleep_def)

lemma create_embedding_graphql_bound:
  "length (submitted (snd (create_embedding_graphql svc t w))) \<le> length (submitted w) + 2"
  by (simp add: create_embedding_graphql_def embeddings_create_def log_line_def sleep_def
      split: option.split)

lemma process_transcript_rest_skips:
  assumes "get_transcript_details env tid = Answer (Some tr)"
    and "get_participants env tid = Answer ps"
    and "fst (create_embedding_rest (client_embeddings env) (Some (embedding_text tr ps))
               (log_line (Processing tid) w)) = None"
  shows "fst (process_transcript_rest env tid w) = Inr None"
  using assms
  by (cases "create_embedding_rest (client_embeddings env) (Some (embedding_text tr ps))
               (log_line (Processing tid) w)")
     (simp add: process_transcript_rest_def)

lemma process_batch_skips:
  "fst (process_transcript_rest env tid w) = Inr None \<Longrightarrow>
     process_batch env (tid # batch) br P w =
       process_batch env batch br P (sleep RateLimitPause (snd (process_transcript_rest env tid w)))"
  by (cases "process_transcript_rest env tid w") simp

lemma chunk_loop_skips:
  "fst (create_embedding_graphql (openai_embeddings env) (chunk_text c) w) = Inl e \<Longrightarrow>
     chunk_loop env tid (c # cs) w =
       chunk_loop env tid cs
         (log_line ChunkError (snd (create_embedding_graphql (openai_embeddings env) (chunk_text c) w)))"
  by (cases "create_embedding_graphql (openai_embeddings env) (chunk_text c) w") simp

lemma create_embedding_rest_bound:
  "length (submitted (snd (create_embedding_rest svc text_arg w))) \<le> length (submitted w) + 3"
  using create_embedding_attempts_bound [of svc _ 0 w]
  by (simp add: create_embedding_rest_def Let_def max_retries_def)

section \<open>The texts \<^verbatim>\<open>create_embedding\<close> submits\<close>

lemma create_embedding_attempts_submitted:
  "set (submitted (snd (create_embedding_attempts svc t attempt w))) \<subseteq> insert t (set (submitted w))"
proof (induction svc t attempt w rule: create_embedding_attempts.induct)
  case (1 svc input attempt w)
  show ?case
  proof (cases "attempt < max_retries")
    case False
    then show ?thesis
      by (auto simp: create_embedding_attempts.simps [of svc input attempt w])
  next
    case True
    show ?thesis
    proof (cases "svc (length (submitted w)) input")
      case (Some e)
      with True show ?thesis
        by (auto simp: create_embedding_attempts.simps [of svc input attempt w] embeddings_create_def)
    next
      case None
      show ?thesis
      proof (cases "attempt < max_retries - 1")
        case False
        with True None show ?thesis
          by (auto simp: create_embedding_attempts.simps [of svc input attempt w]
              embeddings_create_def)
      next
        case lt: True
        have ec: "embeddings_create svc input w = (None, w\<lparr>submitted := submitted w @ [input]\<rparr>)"
          using None by (simp add: embeddings_create_def)
        from "1.IH" [OF True ec [symmetric] refl refl lt]
        show ?thesis using True None lt
          by (auto simp: create_embedding_attempts.simps [of svc input attempt w]
              embeddings_create_def)
      qed
    qed
  qed
qed

lemma create_embedding_rest_never_submits_empty:
  assumes "[] \<notin> set (submitted w)"
  shows "[] \<notin> set (submitted (snd (create_embedding_rest svc text_arg w)))"
proof -
  define text1 where "text1 = (case text_arg of None \<Rightarrow> ''Empty transcript''
      | Some t \<Rightarrow> if t = [] then ''Empty transcript'' else t)"
  define text2 where "text2 = (if length text1 > 8000 then take 8000 text1 else text1)"
  have "text1 \<noteq> []" by (auto simp: text1_def split: option.split)
  then have "text2 \<noteq> []" by (auto simp: text2_def)
  moreover have "create_embedding_rest svc text_arg w = create_embedding_attempts svc text2 0 w"
    by (simp add: create_embedding_rest_def text1_def text2_def Let_def)
  ultimately show ?thesis
    using create_embedding_attempts_submitted [of svc text2 0 w] assms by auto
qed

section \<open>The claims about the chunker\<close>

text \<open>
  C3. For every transcript, the chunks carry the chunk indices \<open>0, 1, ...\<close> up to the
  number of chunks minus one, in output order; there is one chunk per speaker block; the
  number of speaker blocks is the number of maximal runs of equal speaker labels in the
  sentences; every chunk's \<^verbatim>\<open>total_chunks\<close> is that number; the text of the \<open>i\<close>-th chunk
  is the joined text of the \<open>i\<close>-th block; the sentences of the blocks, put one after the
  other in block order, are the transcript's sentences in their original order; and the
  chunk texts joined by spaces are the sentence texts joined by spaces.
\<close>

theorem chunk_indices_and_order:
  "let sentences = get_or (t_sentences tr) [];
       blocks = group_by_speaker sentences;
       chunks = process_transcript_graphql tr
   in map (\<lambda>c. chunk_index (metadata c)) chunks = [0..<length chunks]
      \<and> length chunks = length blocks
      \<and> length blocks = length (remdups_adj (map speaker_name sentences))
      \<and> (\<forall>c \<in> set chunks. total_chunks (metadata c) = length blocks)
      \<and> map chunk_text chunks = map block_text blocks
      \<and> concat (map b_sentences blocks) = sentences
      \<and> str_join '' '' (map chunk_text chunks)
          = str_join '' '' (map (\<lambda>s. get_or (s_text s) '''') sentences)"
  unfolding Let_def
  using map_chunk_index [of tr] length_process_transcript_graphql [of tr]
    length_group_by_speaker [of "get_or (t_sentences tr) []"]
    total_chunks_all [of _ tr] map_chunk_text [of tr]
    group_by_speaker_concat [of "get_or (t_sentences tr) []"]
    chunk_texts_joined [of tr]
  by blast

theorem chunk_indices_and_order_witness:
  "map (\<lambda>c. chunk_index (metadata c)) (process_transcript_graphql example_transcript) = [0, 1]
   \<and> map (\<lambda>c. total_chunks (metadata c)) (process_transcript_graphql example_transcript) = [2, 2]
   \<and> length (group_by_speaker (get_or (t_sentences example_transcript) [])) = 2
   \<and> concat (map b_sentences (group_by_speaker (get_or (t_sentences example_transcript) [])))
       = get_or (t_sentences example_transcript) []"
  using chunk_indices_and_order [of example_transcript]
  by (simp add: Let_def example_chunks example_blocks)

text \<open>
  C4. For every transcript, no two consecutive chunks have the same speaker label. The
  chunks' speakers are the blocks' speakers, and every block is a maximal run: it is not
  empty, all its sentences carry the block's label, its neighbours carry another label, and
  the blocks put one after the other are the transcript's sentences.
\<close>

theorem adjacent_chunks_have_different_speakers:
  "let sentences = get_or (t_sentences tr) [];
       blocks = group_by_speaker sentences;
       chunks = process_transcript_graphql tr
   in distinct_adj (map (\<lambda>c. speaker (metadata c)) chunks)
      \<and> (\<forall>i. Suc i < length chunks \<longrightarrow>
             speaker (metadata (chunks ! i)) \<noteq> speaker (metadata (chunks ! Suc i)))
      \<and> map (\<lambda>c. speaker (metadata c)) chunks = map b_speaker blocks
      \<and> (\<forall>b \<in> set blocks. b_sentences b \<noteq> []
             \<and> (\<forall>s \<in> set (b_sentences b). b_speaker b = Some (speaker_name s)))
      \<and> concat (map b_sentences blocks) = sentences"
proof -
  let ?ss = "get_or (t_sentences tr) []"
  let ?cs = "process_transcript_graphql tr"
  have sp: "map (\<lambda>c. speaker (metadata c)) ?cs = map b_speaker (group_by_speaker ?ss)"
    by (rule map_chunk_speaker)
  have da: "distinct_adj (map (\<lambda>c. speaker (metadata c)) ?cs)"
    using group_by_speaker_ok [of ?ss] by (simp add: sp)
  have nth: "\<forall>i. Suc i < length ?cs \<longrightarrow>
      speaker (metadata (?cs ! i)) \<noteq> speaker (metadata (?cs ! Suc i))"
  proof (intro allI impI)
    fix i assume i: "Suc i < length ?cs"
    from distinct_adj_nth [OF da, of i] i show
      "speaker (metadata (?cs ! i)) \<noteq> speaker (metadata (?cs ! Suc i))" by simp
  qed
  have runs: "\<forall>b \<in> set (group_by_speaker ?ss). b_sentences b \<noteq> []
      \<and> (\<forall>s \<in> set (b_sentences b). b_speaker b = Some (speaker_name s))"
    using group_by_speaker_ok [of ?ss] by (simp add: block_ok_def)
  show ?thesis
    unfolding Let_def using da nth sp runs group_by_speaker_concat [of ?ss] by blast
qed

theorem adjacent_chunks_have_different_speakers_witness:
  "map (\<lambda>c. speaker (metadata c)) (process_transcript_graphql example_transcript)
     = [Some ''Speaker 1'', Some ''Speaker 2'']
   \<and> distinct_adj (map (\<lambda>c. speaker (metadata c)) (process_transcript_graphql example_transcript))
   \<and> speaker (metadata (process_transcript_graphql example_transcript ! 0))
       \<noteq> speaker (metadata (process_transcript_graphql example_transcript ! 1))"
proof -
  from adjacent_chunks_have_different_speakers [of example_transcript]
  have "distinct_adj (map (\<lambda>c. speaker (metadata c)) (process_transcript_graphql example_transcript))"
    unfolding Let_def by (rule conjunct1)
  then show ?thesis by (simp add: example_chunks)
qed

text \<open>
  C5. On the sentences (s1, "hi"), (s1, "there"), (s2, "hey") of two different speakers
  the chunker yields exactly two chunks: chunk 0 with the label of s1, the text "hi there"
  and the label of s2 as next speaker; chunk 1 with the label of s2, the text "hey" and the
  label of s1 as previous speaker. The label of a speaker id \<open>n\<close> is the string
  \<^verbatim>\<open>Speaker n\<close>.
\<close>

theorem chunking_example:
  assumes "s1 \<noteq> s2"
  shows "process_transcript_graphql
           (tr\<lparr>t_sentences := Some [\<lparr>s_text = Some ''hi'', speaker_id = Some s1\<rparr>,
                                     \<lparr>s_text = Some ''there'', speaker_id = Some s1\<rparr>,
                                     \<lparr>s_text = Some ''hey'', speaker_id = Some s2\<rparr>]\<rparr>) =
     [\<lparr>chunk_text = ''hi there'',
       metadata = \<lparr>transcript_id = get_or (t_id tr) '''', title = get_or (t_title tr) '''',
         speaker = Some (''Speaker '' @ str_int s1),
         prev_speaker = Some ''None'', next_speaker = Some (''Speaker '' @ str_int s2),
         participants = get_or (t_participants tr) [],
         recording_date = get_or (t_date tr) (DateStr ''''),
         duration = get_or (t_duration tr) 0, chunk_index = 0, total_chunks = 2,
         source = ''fireflies''\<rparr>\<rparr>,
      \<lparr>chunk_text = ''hey'',
       metadata = \<lparr>transcript_id = get_or (t_id tr) '''', title = get_or (t_title tr) '''',
         speaker = Some (''Speaker '' @ str_int s2),
         prev_speaker = Some (''Speaker '' @ str_int s1), next_speaker = Some ''None'',
         participants = get_or (t_participants tr) [],
         recording_date = get_or (t_date tr) (DateStr ''''),
         duration = get_or (t_duration tr) 0, chunk_index = 1, total_chunks = 2,
         source = ''fireflies''\<rparr>\<rparr>]"
proof -
  from assms have ne: "str_int s1 \<noteq> str_int s2" by (simp add: str_int_inj)
  have blocks: "group_by_speaker [\<lparr>s_text = Some ''hi'', speaker_id = Some s1\<rparr>,
                                     \<lparr>s_text = Some ''there'', speaker_id = Some s1\<rparr>,
                                     \<lparr>s_text = Some ''hey'', speaker_id = Some s2\<rparr>] =
     [\<lparr>b_speaker = Some (''Speaker '' @ str_int s1),
       b_sentences = [\<lparr>s_text = Some ''hi'', speaker_id = Some s1\<rparr>,
                      \<lparr>s_text = Some ''there'', speaker_id = Some s1\<rparr>]\<rparr>,
      \<lparr>b_speaker = Some (''Speaker '' @ str_int s2),
       b_sentences = [\<lparr>s_text = Some ''hey'', speaker_id = Some s2\<rparr>]\<rparr>]"
    using ne by (simp add: group_by_speaker_def speaker_name_def get_or_def)
  show ?thesis
    unfolding process_transcript_graphql_def Let_def
    by (simp add: get_or_def [of "Some _"] blocks make_chunk_def block_text_def)
qed

theorem chunking_example_witness:
  "(1::int) \<noteq> 2 \<and>
   map (\<lambda>c. (chunk_text c, speaker (metadata c), prev_speaker (metadata c), next_speaker (metadata c)))
     (process_transcript_graphql example_transcript) =
     [(''hi there'', Some ''Speaker 1'', Some ''None'', Some ''Speaker 2''),
      (''hey'', Some ''Speaker 2'', Some ''Speaker 1'', Some ''None'')]"
proof -
  have h: "(1::int) \<noteq> 2" by simp
  have tr: "example_transcript\<lparr>t_sentences := Some [\<lparr>s_text = Some ''hi'', speaker_id = Some 1\<rparr>,
                                     \<lparr>s_text = Some ''there'', speaker_id = Some 1\<rparr>,
                                     \<lparr>s_text = Some ''hey'', speaker_id = Some 2\<rparr>]\<rparr> = example_transcript"
    by (simp add: example_transcript_def)
  show ?thesis
    using h chunking_example [OF h, of example_transcript]
    by (simp add: tr str_int_def str_nat.simps digit_char_def)
qed

text \<open>
  C10. For every transcript with at least one sentence, the first chunk's
  \<^verbatim>\<open>prev_speaker\<close> and the last chunk's \<^verbatim>\<open>next_speaker\<close> are the string \<^verbatim>\<open>"None"\<close>, and
  no chunk has Python's \<^verbatim>\<open>None\<close> in either field.
\<close>

theorem adjacency_fields_never_null:
  assumes "get_or (t_sentences tr) [] \<noteq> []"
  shows "let chunks = process_transcript_graphql tr
         in chunks \<noteq> []
            \<and> prev_speaker (metadata (hd chunks)) = Some ''None''
            \<and> next_speaker (metadata (last chunks)) = Some ''None''
            \<and> (\<forall>c \<in> set chunks. prev_speaker (metadata c) \<noteq> None
                                  \<and> next_speaker (metadata c) \<noteq> None)"
proof -
  let ?bs = "group_by_speaker (get_or (t_sentences tr) [])"
  let ?cs = "process_transcript_graphql tr"
  from assms have bs: "?bs \<noteq> []" by (simp add: group_by_speaker_Nil_iff)
  then have n: "0 < length ?bs" by simp
  have len: "length ?cs = length ?bs" by (rule length_process_transcript_graphql)
  with bs have cs: "?cs \<noteq> []" by auto
  have first: "prev_speaker (metadata (hd ?cs)) = Some ''None''"
    using n by (simp add: hd_conv_nth cs nth_process_transcript_graphql make_chunk_def)
  have lst: "next_speaker (metadata (last ?cs)) = Some ''None''"
    using n by (simp add: last_conv_nth cs len nth_process_transcript_graphql make_chunk_def)
  have some: "b_speaker b \<noteq> None" if "b \<in> set ?bs" for b
    using group_by_speaker_ok [of "get_or (t_sentences tr) []"] that
    by (cases "b_sentences b") (auto simp: block_ok_def)
  have all: "prev_speaker (metadata c) \<noteq> None \<and> next_speaker (metadata c) \<noteq> None"
    if "c \<in> set ?cs" for c
  proof -
    from that obtain i where i: "i < length ?bs" and c: "c = make_chunk tr ?bs i"
      by (auto simp: process_transcript_graphql_def Let_def)
    have p: "prev_speaker (metadata c) \<noteq> None"
      using i some [of "?bs ! (i - 1)"] by (simp add: c make_chunk_def)
    have q: "next_speaker (metadata c) \<noteq> None"
      using i some [of "?bs ! (i + 1)"] by (simp add: c make_chunk_def)
    from p q show ?thesis ..
  qed
  show ?thesis unfolding Let_def using cs first lst all by blast
qed

theorem adjacency_fields_never_null_witness:
  "get_or (t_sentences example_transcript) [] \<noteq> []
   \<and> prev_speaker (metadata (hd (process_transcript_graphql example_transcript))) = Some ''None''
   \<and> next_speaker (metadata (last (process_transcript_graphql example_transcript))) = Some ''None''
   \<and> map (\<lambda>c. (prev_speaker (metadata c), next_speaker (metadata c)))
        (process_transcript_graphql example_transcript)
      = [(Some ''None'', Some ''Speaker 2''), (Some ''Speaker 1'', Some ''None'')]"
proof -
  have h: "get_or (t_sentences example_transcript) [] \<noteq> []"
    by (simp add: example_transcript_def get_or_def)
  show ?thesis
    using h adjacency_fields_never_null [OF h]
    by (simp add: Let_def example_chunks)
qed

section \<open>Facts about the runs\<close>

text \<open>
  The list a run goes through. Without \<^verbatim>\<open>--force\<close> and \<^verbatim>\<open>--resume-from\<close> it is the listing
  without the ids of the checkpoint; the run logs the start of a transcript's processing
  for the ids of that list, in order. The GraphQL run does so for the whole list. The REST
  run does so for the whole list when the batch size is positive and no exception other
  than a request error leaves the fetch functions; otherwise its \<^verbatim>\<open>main\<close> ends at the
  handler around the batch loop.
\<close>

lemma fresh_run_logs_unprocessed_ids:
  fixes genv :: "'a graphql_env" and renv :: "'b rest_env"
  shows
  "(\<not> arg_force genv \<and> arg_resume_from genv = None \<longrightarrow>
      unprocessed_ids ids processed_list (arg_force genv)
        = filter (\<lambda>tid. tid \<notin> set processed_list) ids
      \<and> processing_ids (logged (snd (main_graphql genv processed_list ids)))
        = filter (\<lambda>tid. tid \<notin> set processed_list) ids)
   \<and> remaining_ids ids processed_set = filter (\<lambda>tid. tid \<notin> processed_set) ids
   \<and> (args_resume_from renv = None \<and> 0 < args_batch_size renv
        \<and> (\<forall>tid \<in> set ids. get_transcript_details renv tid \<noteq> Raised
                               \<and> get_participants renv tid \<noteq> Raised) \<longrightarrow>
      processing_ids (logged (snd (snd (main_rest renv ids processed_set))))
        = filter (\<lambda>tid. tid \<notin> processed_set) ids)"
proof (intro conjI impI)
  assume a: "\<not> arg_force genv \<and> arg_resume_from genv = None"
  then show "unprocessed_ids ids processed_list (arg_force genv)
        = filter (\<lambda>tid. tid \<notin> set processed_list) ids"
    by (simp add: unprocessed_ids_def)
  with a show "processing_ids (logged (snd (main_graphql genv processed_list ids)))
        = filter (\<lambda>tid. tid \<notin> set processed_list) ids"
    by (simp add: main_graphql_processing handle_resume_from_def)
next
  show "remaining_ids ids processed_set = filter (\<lambda>tid. tid \<notin> processed_set) ids"
    by (rule remaining_ids_filter)
next
  assume a: "args_resume_from renv = None \<and> 0 < args_batch_size renv
        \<and> (\<forall>tid \<in> set ids. get_transcript_details renv tid \<noteq> Raised
                               \<and> get_participants renv tid \<noteq> Raised)"
  then have "processing_ids (logged (snd (snd (main_rest renv ids processed_set)))) =
     fst (handle_resume_from (args_resume_from renv) (remaining_ids ids processed_set)
            (world0 :: 'b pinecone_format world))"
    by (intro main_rest_processing) simp_all
  with a show "processing_ids (logged (snd (snd (main_rest renv ids processed_set))))
        = filter (\<lambda>tid. tid \<notin> processed_set) ids"
    by (simp add: handle_resume_from_def remaining_ids_filter)
qed

text \<open>
  \<^verbatim>\<open>--resume-from\<close>: the list C, D, E with the id D becomes D, E; a non-empty id that is
  not in the list logs a warning and leaves the list as it is; one that is in the list
  cuts the list at its first occurrence.
\<close>

lemma resume_from_cuts_list:
  fixes genv :: "'a graphql_env" and renv :: "'b rest_env"
  shows
  "fst (handle_resume_from (Some ''D'') [''C'', ''D'', ''E''] w) = [''D'', ''E'']
   \<and> (r \<noteq> [] \<and> r \<notin> set ids \<longrightarrow>
        handle_resume_from (Some r) ids w = (ids, log_line (ResumeNotFound r) w)
        \<and> level (ResumeNotFound r) = Warning)
   \<and> (r \<noteq> [] \<and> r \<in> set ids \<longrightarrow>
        (\<exists>skipped. ids = skipped @ fst (handle_resume_from (Some r) ids w) \<and> r \<notin> set skipped
           \<and> hd (fst (handle_resume_from (Some r) ids w)) = r))
   \<and> processing_ids (logged (snd (main_graphql genv processed_list all_ids)))
        = fst (handle_resume_from (arg_resume_from genv)
                 (unprocessed_ids all_ids processed_list (arg_force genv))
                 (world0 :: 'a output_record world))
   \<and> (0 < args_batch_size renv
        \<and> (\<forall>tid \<in> set all_ids. get_transcript_details renv tid \<noteq> Raised
                                   \<and> get_participants renv tid \<noteq> Raised) \<longrightarrow>
        processing_ids (logged (snd (snd (main_rest renv all_ids processed_set))))
          = fst (handle_resume_from (args_resume_from renv) (remaining_ids all_ids processed_set)
                   (world0 :: 'b pinecone_format world)))"
proof (intro conjI impI)
  show "fst (handle_resume_from (Some ''D'') [''C'', ''D'', ''E''] w) = [''D'', ''E'']"
    by (simp add: handle_resume_from_def)
next
  assume "r \<noteq> [] \<and> r \<notin> set ids"
  then show "handle_resume_from (Some r) ids w = (ids, log_line (ResumeNotFound r) w)"
    by (simp add: handle_resume_from_absent)
next
  show "level (ResumeNotFound r) = Warning" by simp
next
  assume "r \<noteq> [] \<and> r \<in> set ids"
  then show "\<exists>skipped. ids = skipped @ fst (handle_resume_from (Some r) ids w) \<and> r \<notin> set skipped
           \<and> hd (fst (handle_resume_from (Some r) ids w)) = r"
    by (simp add: handle_resume_from_present)
next
  show "processing_ids (logged (snd (main_graphql genv processed_list all_ids)))
        = fst (handle_resume_from (arg_resume_from genv)
                 (unprocessed_ids all_ids processed_list (arg_force genv))
                 (world0 :: 'a output_record world))"
    by (rule main_graphql_processing)
next
  assume "0 < args_batch_size renv
        \<and> (\<forall>tid \<in> set all_ids. get_transcript_details renv tid \<noteq> Raised
                                   \<and> get_participants renv tid \<noteq> Raised)"
  then show "processing_ids (logged (snd (snd (main_rest renv all_ids processed_set))))
          = fst (handle_resume_from (args_resume_from renv) (remaining_ids all_ids processed_set)
                   (world0 :: 'b pinecone_format world))"
    by (intro main_rest_processing) simp_all
qed

text \<open>
  The requests and pauses of both \<^verbatim>\<open>create_embedding\<close> functions. The one of
  \<^verbatim>\<open>export_to_pinecone.py\<close> makes at most three requests, pausing 1 and then 2 seconds; the
  one of \<^verbatim>\<open>export_to_pinecone_graphql.py\<close> makes at most two, pausing 2 seconds once. In
  both scripts the caller goes on after a failed embedding.
\<close>

lemma embedding_retry_bounds:
  fixes svc :: "'e embedding_service" and w :: "'r world"
    and renv :: "'e rest_env" and genv :: "'e graphql_env"
  shows
  "length (submitted (snd (create_embedding_rest svc text_arg w))) \<le> length (submitted w) + 3
   \<and> (t \<noteq> [] \<and> length t \<le> 8000
        \<and> svc (length (submitted w)) t = None \<and> svc (length (submitted w) + 1) t = None
        \<and> svc (length (submitted w) + 2) t = Some v \<longrightarrow>
        create_embedding_rest svc (Some t) w =
          (Some v, w\<lparr>submitted := submitted w @ [t, t, t],
                      slept := slept w @ [Seconds 1, Seconds 2],
                      logged := logged w @ [EmbeddingError 1, EmbeddingError 2]\<rparr>))
   \<and> (t \<noteq> [] \<and> length t \<le> 8000
        \<and> svc (length (submitted w)) t = None \<and> svc (length (submitted w) + 1) t = None
        \<and> svc (length (submitted w) + 2) t = None \<longrightarrow>
        create_embedding_rest svc (Some t) w =
          (None, w\<lparr>submitted := submitted w @ [t, t, t],
                    slept := slept w @ [Seconds 1, Seconds 2],
                    logged := logged w @ [EmbeddingError 1, EmbeddingError 2, EmbeddingError 3]\<rparr>))
   \<and> (get_transcript_details renv tid = Answer (Some tr) \<and> get_participants renv tid = Answer ps
        \<and> fst (create_embedding_rest (client_embeddings renv) (Some (embedding_text tr ps))
                  (log_line (Processing tid) rw)) = None \<longrightarrow>
        fst (process_transcript_rest renv tid rw) = Inr None
        \<and> process_batch renv (tid # batch) batch_results processed_ids rw =
            process_batch renv batch batch_results processed_ids
              (sleep RateLimitPause (snd (process_transcript_rest renv tid rw))))
   \<and> length (submitted (snd (create_embedding_graphql svc t w))) \<le> length (submitted w) + 2
   \<and> (svc (length (submitted w)) t = None \<and> svc (length (submitted w) + 1) t = Some v \<longrightarrow>
        create_embedding_graphql svc t w =
          (Inr v, w\<lparr>submitted := submitted w @ [t, t],
                     slept := slept w @ [Seconds 2],
                     logged := logged w @ [EmbeddingErrorFirst]\<rparr>))
   \<and> (svc (length (submitted w)) t = None \<and> svc (length (submitted w) + 1) t = None \<longrightarrow>
        create_embedding_graphql svc t w =
          (Inl ServiceError, w\<lparr>submitted := submitted w @ [t, t],
                     slept := slept w @ [Seconds 2],
                     logged := logged w @ [EmbeddingErrorFirst, EmbeddingErrorAfterRetry]\<rparr>))
   \<and> (fst (create_embedding_graphql (openai_embeddings genv) (chunk_text c) gw) = Inl e \<longrightarrow>
        chunk_loop genv gtid (c # cs) gw =
          chunk_loop genv gtid cs
            (log_line ChunkError
               (snd (create_embedding_graphql (openai_embeddings genv) (chunk_text c) gw))))"
proof (intro conjI impI)
  show "length (submitted (snd (create_embedding_rest svc text_arg w))) \<le> length (submitted w) + 3"
    by (rule create_embedding_rest_bound)
next
  assume "t \<noteq> [] \<and> length t \<le> 8000
        \<and> svc (length (submitted w)) t = None \<and> svc (length (submitted w) + 1) t = None
        \<and> svc (length (submitted w) + 2) t = Some v"
  then show "create_embedding_rest svc (Some t) w =
          (Some v, w\<lparr>submitted := submitted w @ [t, t, t],
                      slept := slept w @ [Seconds 1, Seconds 2],
                      logged := logged w @ [EmbeddingError 1, EmbeddingError 2]\<rparr>)"
    by (simp add: create_embedding_rest_as_is rest_two_failures_then_success)
next
  assume "t \<noteq> [] \<and> length t \<le> 8000
        \<and> svc (length (submitted w)) t = None \<and> svc (length (submitted w) + 1) t = None
        \<and> svc (length (submitted w) + 2) t = None"
  then show "create_embedding_rest svc (Some t) w =
          (None, w\<lparr>submitted := submitted w @ [t, t, t],
                    slept := slept w @ [Seconds 1, Seconds 2],
                    logged := logged w @ [EmbeddingError 1, EmbeddingError 2, EmbeddingError 3]\<rparr>)"
    by (simp add: create_embedding_rest_as_is rest_three_failures)
next
  assume a: "get_transcript_details renv tid = Answer (Some tr) \<and> get_participants renv tid = Answer ps
        \<and> fst (create_embedding_rest (client_embeddings renv) (Some (embedding_text tr ps))
                  (log_line (Processing tid) rw)) = None"
  then show skip: "fst (process_transcript_rest renv tid rw) = Inr None"
    by (intro process_transcript_rest_skips [of renv tid tr ps]) simp_all
  then show "process_batch renv (tid # batch) batch_results processed_ids rw =
            process_batch renv batch batch_results processed_ids
              (sleep RateLimitPause (snd (process_transcript_rest renv tid rw)))"
    by (rule process_batch_skips)
next
  show "length (submitted (snd (create_embedding_graphql svc t w))) \<le> length (submitted w) + 2"
    by (rule create_embedding_graphql_bound)
next
  assume "svc (length (submitted w)) t = None \<and> svc (length (submitted w) + 1) t = Some v"
  then show "create_embedding_graphql svc t w =
          (Inr v, w\<lparr>submitted := submitted w @ [t, t],
                     slept := slept w @ [Seconds 2],
                     logged := logged w @ [EmbeddingErrorFirst]\<rparr>)"
    by (simp add: graphql_one_failure_then_success)
next
  assume "svc (length (submitted w)) t = None \<and> svc (length (submitted w) + 1) t = None"
  then show "create_embedding_graphql svc t w =
          (Inl ServiceError, w\<lparr>submitted := submitted w @ [t, t],
                     slept := slept w @ [Seconds 2],
                     logged := logged w @ [EmbeddingErrorFirst, EmbeddingErrorAfterRetry]\<rparr>)"
    by (simp add: graphql_two_failures)
next
  assume "fst (create_embedding_graphql (openai_embeddings genv) (chunk_text c) gw) = Inl e"
  then show "chunk_loop genv gtid (c # cs) gw =
          chunk_loop genv gtid cs
            (log_line ChunkError
               (snd (create_embedding_graphql (openai_embeddings genv) (chunk_text c) gw)))"
    by (rule chunk_loop_skips)
qed

text \<open>
  The GraphQL run marks exactly the ids of its list whose transcript was fetched and gave
  chunks, in list order: no exception ends its loop.
\<close>

lemma marked_ids_append: "marked_ids (xs @ ys) = marked_ids xs @ marked_ids ys"
  by (induction xs rule: marked_ids.induct) simp_all

lemma pinecone_upsert_marked:
  "marked_ids (effects (pinecone_upsert env out w)) = marked_ids (effects w)"
  by (simp add: pinecone_upsert_def marked_ids_append split: option.split)

lemma chunk_loop_marked:
  "marked_ids (effects (chunk_loop env tid cs w)) = marked_ids (effects w)"
proof (induction cs arbitrary: w)
  case Nil
  then show ?case by simp
next
  case (Cons c cs)
  obtain r w1 where ce: "create_embedding_graphql (openai_embeddings env) (chunk_text c) w = (r, w1)"
    by (cases "create_embedding_graphql (openai_embeddings env) (chunk_text c) w") auto
  from create_embedding_graphql_frame [of "openai_embeddings env" "chunk_text c" w] ce
  have w1: "effects w1 = effects w" by simp
  show ?case
    using ce w1
    by (cases r) (simp_all add: Cons.IH Let_def pinecone_upsert_marked marked_ids_append)
qed

lemma transcript_loop_marked:
  "marked_ids (effects (snd (transcript_loop env ids count w))) =
     marked_ids (effects w) @
     filter (\<lambda>tid. case fetch_transcript_details_graphql env tid of
                      None \<Rightarrow> False
                    | Some tr \<Rightarrow> process_transcript_graphql tr \<noteq> []) ids"
proof (induction ids arbitrary: count w)
  case Nil
  then show ?case by simp
next
  case (Cons tid tids)
  show ?case
    by (simp add: Let_def Cons.IH chunk_loop_marked marked_ids_append split: option.split)
qed

lemma example_embedding_text:
  "embedding_text example_rest_transcript
     [\<lparr>p_name = Some ''Ann'', p_email = Some ''ann@example.org'', p_role = None\<rparr>] =
   ''Title: Weekly. Summary: Plans. Participants: Ann (ann@example.org). Transcript excerpt: hi there hey...''"
  by (simp add: embedding_text_def example_rest_transcript_def get_or_def participant_text_def)

lemma process_transcript_rest_answers:
  assumes "get_transcript_details env tid = Answer (Some example_rest_transcript)"
    and "get_participants env tid =
           Answer [\<lparr>p_name = Some ''Ann'', p_email = Some ''ann@example.org'', p_role = None\<rparr>]"
    and "client_embeddings env = (\<lambda>k t. Some [1, 2])"
    and "extract_topics env = extract_topics example_rest_env"
    and "now_isoformat env = now_isoformat example_rest_env"
    and "args_namespace env = args_namespace example_rest_env"
  shows "process_transcript_rest env tid w =
     (Inr (Some (make_pinecone_format example_rest_env tid example_rest_transcript
        [\<lparr>p_name = Some ''Ann'', p_email = Some ''ann@example.org'', p_role = None\<rparr>] [1, 2])),
      (log_line (Processing tid) w)\<lparr>submitted := submitted w @
        [''Title: Weekly. Summary: Plans. Participants: Ann (ann@example.org). Transcript excerpt: hi there hey...'']\<rparr>)"
  using assms
  by (simp add: process_transcript_rest_def example_embedding_text create_embedding_rest_def
      create_embedding_attempts.simps max_retries_def embeddings_create_def Let_def
      make_pinecone_format_def log_line_def)

lemma process_transcript_rest_raises:
  assumes "get_transcript_details env tid = Answer (Some tr)" and "get_participants env tid = Raised"
  shows "process_transcript_rest env tid w = (Inl ServiceError, log_line (Processing tid) w)"
  using assms by (simp add: process_transcript_rest_def)

lemma raising_rest_env_fields:
  "get_transcript_details raising_rest_env tid = Answer (Some example_rest_transcript)"
  "get_participants raising_rest_env ''D'' = Raised"
  "tid \<noteq> ''D'' \<Longrightarrow> get_participants raising_rest_env tid =
     Answer [\<lparr>p_name = Some ''Ann'', p_email = Some ''ann@example.org'', p_role = None\<rparr>]"
  "client_embeddings raising_rest_env = (\<lambda>k t. Some [1, 2])"
  "extract_topics raising_rest_env = extract_topics example_rest_env"
  "now_isoformat raising_rest_env = now_isoformat example_rest_env"
  "args_namespace raising_rest_env = args_namespace example_rest_env"
  "args_batch_size raising_rest_env = 1"
  "args_format raising_rest_env = Jsonl"
  "args_resume_from raising_rest_env = None"
  by (simp_all add: raising_rest_env_def example_rest_env_def)

section \<open>The claims about the runs\<close>

text \<open>
  C8. The vector id is a function of the transcript id and the chunk index, and different
  pairs get different ids: in the GraphQL script \<^verbatim>\<open>fireflies_<id>_<index>\<close>, in the REST
  script, which writes one vector per transcript, \<^verbatim>\<open>fireflies_<id>\<close>. Every record the
  scripts write carries the id so computed.
\<close>

theorem vector_id_deterministic_and_injective:
  "(vector_id_graphql tid i = vector_id_graphql tid' i' \<longleftrightarrow> tid = tid' \<and> i = i')
   \<and> (vector_id_rest tid = vector_id_rest tid' \<longleftrightarrow> tid = tid')
   \<and> (\<forall>out. AppendLine out \<in> set (effects (chunk_loop env tid chunks world0)) \<longrightarrow>
         out_id out = vector_id_graphql tid (chunk_index (out_metadata out)))
   \<and> (\<forall>res. fst (process_transcript_rest renv tid w) = Inr (Some res) \<longrightarrow>
         vec_id res = vector_id_rest tid)"
proof (intro conjI allI impI)
  show "vector_id_graphql tid i = vector_id_graphql tid' i' \<longleftrightarrow> tid = tid' \<and> i = i'"
    by (rule vector_id_graphql_inj)
  show "vector_id_rest tid = vector_id_rest tid' \<longleftrightarrow> tid = tid'"
    by (rule vector_id_rest_inj)
next
  fix out assume "AppendLine out \<in> set (effects (chunk_loop env tid chunks world0))"
  from chunk_loop_appended [OF this]
  show "out_id out = vector_id_graphql tid (chunk_index (out_metadata out))"
    by (auto simp: world0_def)
next
  fix res assume "fst (process_transcript_rest renv tid w) = Inr (Some res)"
  then show "vec_id res = vector_id_rest tid" by (rule process_transcript_rest_vec_id)
qed

theorem vector_id_deterministic_and_injective_witness:
  "vector_id_graphql ''T1'' 1 \<noteq> vector_id_graphql ''T1'' 0
   \<and> vector_id_graphql ''T1'' 0 = ''fireflies_T1_0''
   \<and> vector_id_rest ''T1'' = ''fireflies_T1''
   \<and> map out_id (written_records
       (effects (chunk_loop example_graphql_env ''T1''
                  (process_transcript_graphql example_transcript) world0)) [])
     = [''fireflies_T1_0'', ''fireflies_T1_1'']"
  using vector_id_deterministic_and_injective
    [of "''T1''" 1 "''T1''" 0 example_graphql_env
      "process_transcript_graphql example_transcript" example_rest_env world0]
  by (simp add: example_chunk_effects vector_id_graphql_def vector_id_rest_def
      str_nat.simps digit_char_def)

text \<open>
  C2 fails on \<^verbatim>\<open>export_to_pinecone.py\<close>, whose \<^verbatim>\<open>main\<close> has one \<^verbatim>\<open>try\<close> around the whole batch
  loop. With the checkpoint A, B, the listing A, B, C, D, E and a batch size of 1, an
  exception while D is processed ends the run: C is embedded, checkpointed and written, E
  is listed and not in the checkpoint and is never processed. With \<^verbatim>\<open>--batch-size 0\<close>,
  \<^verbatim>\<open>range\<close> raises and the run on the listing A, B, C processes nothing. On the same
  listing, with the transcript D failing, the GraphQL script goes on and marks C and E.
\<close>

theorem rest_run_stops_at_first_exception:
  "main_rest raising_rest_env [''A'', ''B'', ''C'', ''D'', ''E''] {''A'', ''B''} =
     ([make_pinecone_format example_rest_env ''C'' example_rest_transcript
         [\<lparr>p_name = Some ''Ann'', p_email = Some ''ann@example.org'', p_role = None\<rparr>] [1, 2]],
      {''A'', ''B'', ''C''},
      \<lparr>submitted =
         [''Title: Weekly. Summary: Plans. Participants: Ann (ann@example.org). Transcript excerpt: hi there hey...''],
       slept = [RateLimitPause],
       effects =
         [SaveCheckpoint {''A'', ''B'', ''C''},
          AppendLine (make_pinecone_format example_rest_env ''C'' example_rest_transcript
            [\<lparr>p_name = Some ''Ann'', p_email = Some ''ann@example.org'', p_role = None\<rparr>] [1, 2])],
       logged = [Processing ''C'', Processing ''D'', RunError]\<rparr>)
   \<and> main_rest (example_rest_env\<lparr>args_batch_size := 0\<rparr>) [''A'', ''B'', ''C''] {''A'', ''B''} =
     ([], {''A'', ''B''}, \<lparr>submitted = [], slept = [], effects = [], logged = [RunError]\<rparr>)
   \<and> marked_ids (effects (snd (main_graphql failing_fetch_graphql_env [''A'', ''B'']
         [''A'', ''B'', ''C'', ''D'', ''E'']))) = [''C'', ''E'']
   \<and> logged (snd (main_graphql failing_fetch_graphql_env [''A'', ''B'']
         [''A'', ''B'', ''C'', ''D'', ''E''])) =
       [Processing ''C'', Processing ''D'', FetchFailed ''D'', Processing ''E'']"
proof -
  have ne: "''C'' \<noteq> ''D''" by simp
  note ok = process_transcript_rest_answers [OF raising_rest_env_fields(1)
      raising_rest_env_fields(3) [OF ne] raising_rest_env_fields(4-7)]
  note bad = process_transcript_rest_raises [OF raising_rest_env_fields(1,2)]
  have run1: "main_rest raising_rest_env [''A'', ''B'', ''C'', ''D'', ''E''] {''A'', ''B''} =
     ([make_pinecone_format example_rest_env ''C'' example_rest_transcript
         [\<lparr>p_name = Some ''Ann'', p_email = Some ''ann@example.org'', p_role = None\<rparr>] [1, 2]],
      {''A'', ''B'', ''C''},
      \<lparr>submitted =
         [''Title: Weekly. Summary: Plans. Participants: Ann (ann@example.org). Transcript excerpt: hi there hey...''],
       slept = [RateLimitPause],
       effects =
         [SaveCheckpoint {''A'', ''B'', ''C''},
          AppendLine (make_pinecone_format example_rest_env ''C'' example_rest_transcript
            [\<lparr>p_name = Some ''Ann'', p_email = Some ''ann@example.org'', p_role = None\<rparr>] [1, 2])],
       logged = [Processing ''C'', Processing ''D'', RunError]\<rparr>)"
    by (simp add: main_rest_def remaining_ids_def handle_resume_from_def run_batches_def
        raising_rest_env_fields(8-10) batch_loop.simps ok bad save_checkpoint_def
        append_batch_def world0_def emit_def log_line_def sleep_def Let_def insert_commute)
  have run2: "main_rest (example_rest_env\<lparr>args_batch_size := 0\<rparr>) [''A'', ''B'', ''C''] {''A'', ''B''} =
     ([], {''A'', ''B''}, \<lparr>submitted = [], slept = [], effects = [], logged = [RunError]\<rparr>)"
    by (simp add: main_rest_def remaining_ids_def handle_resume_from_def run_batches_def
        example_rest_env_def world0_def log_line_def Let_def)
  have g: "handle_resume_from (arg_resume_from failing_fetch_graphql_env)
        (unprocessed_ids [''A'', ''B'', ''C'', ''D'', ''E''] [''A'', ''B'']
           (arg_force failing_fetch_graphql_env)) (world0 :: int output_record world)
      = ([''C'', ''D'', ''E''], world0)"
    by (simp add: handle_resume_from_def unprocessed_ids_def failing_fetch_graphql_env_def
        example_graphql_env_def)
  have chunks_ne: "process_transcript_graphql example_transcript \<noteq> []"
    by (simp add: example_chunks)
  have run3: "marked_ids (effects (snd (main_graphql failing_fetch_graphql_env [''A'', ''B'']
         [''A'', ''B'', ''C'', ''D'', ''E'']))) = [''C'', ''E'']"
    unfolding main_graphql_def g prod.case transcript_loop_marked
    by (simp add: chunks_ne world0_def failing_fetch_graphql_env_def example_graphql_env_def)
  have run4: "logged (snd (main_graphql failing_fetch_graphql_env [''A'', ''B'']
         [''A'', ''B'', ''C'', ''D'', ''E''])) =
       [Processing ''C'', Processing ''D'', FetchFailed ''D'', Processing ''E'']"
    unfolding main_graphql_def g
    by (simp add: failing_fetch_graphql_env_def example_graphql_env_def
        example_chunks create_embedding_graphql_def embeddings_create_def pinecone_upsert_def
        world0_def log_line_def sleep_def emit_def Let_def)
  from run1 run2 run3 run4 show ?thesis by (intro conjI)
qed


text \<open>
  C7 fails on \<^verbatim>\<open>export_to_pinecone_graphql.py\<close>: with a service that fails twice and then
  succeeds, its \<^verbatim>\<open>create_embedding\<close> makes two requests with one pause of 2 seconds and
  raises, where the one of \<^verbatim>\<open>export_to_pinecone.py\<close> pauses 1 and then 2 seconds and returns
  the successful result of the third request. In the run the chunk is skipped: only the
  second chunk of the transcript is written, and the transcript is marked as processed.
\<close>

theorem graphql_embedding_gives_up_after_two_failures:
  "create_embedding_graphql (failing_first 2 [1, 2 :: int]) ''hello''
          (world0 :: int output_record world) =
     (Inl ServiceError,
      \<lparr>submitted = [''hello'', ''hello''], slept = [Seconds 2], effects = [],
       logged = [EmbeddingErrorFirst, EmbeddingErrorAfterRetry]\<rparr>)
   \<and> create_embedding_rest (failing_first 2 [1, 2 :: int]) (Some ''hello'')
          (world0 :: int output_record world) =
     (Some [1, 2],
      \<lparr>submitted = [''hello'', ''hello'', ''hello''], slept = [Seconds 1, Seconds 2], effects = [],
       logged = [EmbeddingError 1, EmbeddingError 2]\<rparr>)
   \<and> map out_id (written_records
        (effects (snd (main_graphql (example_graphql_env\<lparr>openai_embeddings := failing_first 2 [1, 2]\<rparr>)
                         [] [''T1'']))) [])
      = [''fireflies_T1_1'']
   \<and> marked_ids
        (effects (snd (main_graphql (example_graphql_env\<lparr>openai_embeddings := failing_first 2 [1, 2]\<rparr>)
                         [] [''T1''])))
      = [''T1'']"
proof -
  let ?env = "example_graphql_env\<lparr>openai_embeddings := failing_first 2 [1, 2]\<rparr>"
  have a: "create_embedding_graphql (failing_first 2 [1, 2 :: int]) ''hello''
          (world0 :: int output_record world) =
     (Inl ServiceError,
      \<lparr>submitted = [''hello'', ''hello''], slept = [Seconds 2], effects = [],
       logged = [EmbeddingErrorFirst, EmbeddingErrorAfterRetry]\<rparr>)"
    by (simp add: create_embedding_graphql_def embeddings_create_def failing_first_def
        world0_def log_line_def sleep_def)
  have b: "create_embedding_rest (failing_first 2 [1, 2 :: int]) (Some ''hello'')
          (world0 :: int output_record world) =
     (Some [1, 2],
      \<lparr>submitted = [''hello'', ''hello'', ''hello''], slept = [Seconds 1, Seconds 2], effects = [],
       logged = [EmbeddingError 1, EmbeddingError 2]\<rparr>)"
    by (simp add: create_embedding_rest_def create_embedding_attempts.simps max_retries_def
        embeddings_create_def failing_first_def world0_def log_line_def sleep_def Let_def)
  have run: "effects (snd (main_graphql ?env [] [''T1''])) =
      [AppendLine
         \<lparr>out_id = ''fireflies_T1_1'', out_values = [1, 2],
          out_metadata = metadata (last (process_transcript_graphql example_transcript)),
          out_text = ''hey''\<rparr>,
       MarkProcessed ''T1'']"
    by (simp add: main_graphql_def example_graphql_env_def unprocessed_ids_def
        handle_resume_from_def example_chunks create_embedding_graphql_def embeddings_create_def
        pinecone_upsert_def failing_first_def world0_def log_line_def sleep_def emit_def Let_def
        vector_id_graphql_def str_nat.simps digit_char_def)
  from a b show ?thesis unfolding run by simp
qed

text \<open>
  C6 fails on \<^verbatim>\<open>export_to_pinecone_graphql.py\<close>, whose \<^verbatim>\<open>create_embedding\<close> has no
  placeholder: for a transcript whose only sentence has an empty text the run submits the
  empty string to the embedding service, twice, writes no record and still marks the
  transcript as processed; whatever the service answers, the first text submitted for an
  empty chunk text is the empty string. \<^verbatim>\<open>create_embedding\<close> of \<^verbatim>\<open>export_to_pinecone.py\<close>
  submits the placeholder for an empty and for a missing text.
\<close>

theorem graphql_submits_empty_text:
  "submitted (snd (main_graphql empty_text_env [] [''T1''])) = ['''', '''']
   \<and> effects (snd (main_graphql empty_text_env [] [''T1''])) = [MarkProcessed ''T1'']
   \<and> submitted (snd (create_embedding_graphql svc '''' (world0 :: int output_record world))) \<noteq> []
   \<and> hd (submitted (snd (create_embedding_graphql svc '''' (world0 :: int output_record world)))) = ''''
   \<and> submitted (snd (create_embedding_rest rejecting_empty (Some '''')
          (world0 :: int output_record world))) = [''Empty transcript'']
   \<and> submitted (snd (create_embedding_rest rejecting_empty None
          (world0 :: int output_record world))) = [''Empty transcript'']"
proof -
  have chunks: "process_transcript_graphql empty_text_transcript =
     [\<lparr>chunk_text = '''',
       metadata = \<lparr>transcript_id = ''T1'', title = ''Weekly'', speaker = Some ''Speaker 1'',
         prev_speaker = Some ''None'', next_speaker = Some ''None'',
         participants = [''ann@example.org''], recording_date = DateNum 1700000000000,
         duration = 30, chunk_index = 0, total_chunks = 1, source = ''fireflies''\<rparr>\<rparr>]"
    by (simp add: process_transcript_graphql_def empty_text_transcript_def example_transcript_def
        get_or_def group_by_speaker_def speaker_name_def str_int_def str_nat.simps digit_char_def
        make_chunk_def block_text_def Let_def)
  have run: "main_graphql empty_text_env [] [''T1''] =
     (1, \<lparr>submitted = ['''', ''''], slept = [Seconds 2, RateLimitPause],
          effects = [MarkProcessed ''T1''],
          logged = [Processing ''T1'', EmbeddingErrorFirst, EmbeddingErrorAfterRetry, ChunkError]\<rparr>)"
    by (simp add: main_graphql_def empty_text_env_def example_graphql_env_def unprocessed_ids_def
        handle_resume_from_def chunks create_embedding_graphql_def embeddings_create_def
        rejecting_empty_def world0_def log_line_def sleep_def emit_def Let_def)
  have g: "submitted (snd (create_embedding_graphql svc '''' (world0 :: int output_record world))) \<noteq> []
     \<and> hd (submitted (snd (create_embedding_graphql svc '''' (world0 :: int output_record world)))) = ''''"
    by (simp add: create_embedding_graphql_def embeddings_create_def world0_def log_line_def
        sleep_def split: option.split)
  have r: "submitted (snd (create_embedding_rest rejecting_empty (Some '''')
          (world0 :: int output_record world))) = [''Empty transcript'']
     \<and> submitted (snd (create_embedding_rest rejecting_empty None
          (world0 :: int output_record world))) = [''Empty transcript'']"
    by (simp add: create_embedding_rest_def create_embedding_attempts.simps max_retries_def
        embeddings_create_def rejecting_empty_def world0_def Let_def)
  from run g r show ?thesis by simp
qed

text \<open>
  C1 fails on \<^verbatim>\<open>export_to_pinecone.py\<close>, whose \<^verbatim>\<open>main\<close> calls \<^verbatim>\<open>save_checkpoint\<close> before it
  appends the batch to the output file: on a listing with the single id A the effects are
  the checkpoint with A and then the record of A, so a crash between the two leaves A in the
  checkpoint and nothing in the output file. With \<^verbatim>\<open>--format json\<close> the records are written
  only once, after the checkpoints of all batches. The GraphQL script writes the records of
  a transcript before it marks the transcript as processed.
\<close>

theorem rest_checkpoint_saved_before_records_written:
  "effects (snd (snd (main_rest example_rest_env [''A''] {}))) =
     [SaveCheckpoint {''A''},
      AppendLine (make_pinecone_format example_rest_env ''A'' example_rest_transcript
        [\<lparr>p_name = Some ''Ann'', p_email = Some ''ann@example.org'', p_role = None\<rparr>] [1, 2])]
   \<and> persisted_ids (take 1 (effects (snd (snd (main_rest example_rest_env [''A''] {}))))) {} = {''A''}
   \<and> written_records (take 1 (effects (snd (snd (main_rest example_rest_env [''A''] {}))))) [] = []
   \<and> effects (snd (snd (main_rest (example_rest_env\<lparr>args_format := Json, args_batch_size := 1\<rparr>)
                          [''A'', ''B''] {}))) =
     [SaveCheckpoint {''A''}, SaveCheckpoint {''A'', ''B''},
      WriteJson
        [make_pinecone_format example_rest_env ''A'' example_rest_transcript
           [\<lparr>p_name = Some ''Ann'', p_email = Some ''ann@example.org'', p_role = None\<rparr>] [1, 2],
         make_pinecone_format example_rest_env ''B'' example_rest_transcript
           [\<lparr>p_name = Some ''Ann'', p_email = Some ''ann@example.org'', p_role = None\<rparr>] [1, 2]]]
   \<and> map (\<lambda>x. case x of AppendLine out \<Rightarrow> out_id out | MarkProcessed tid \<Rightarrow> tid | _ \<Rightarrow> [])
        (effects (snd (main_graphql example_graphql_env [] [''T1''])))
      = [''fireflies_T1_0'', ''fireflies_T1_1'', ''T1'']"
proof -
  let ?ps = "[\<lparr>p_name = Some ''Ann'', p_email = Some ''ann@example.org'', p_role = None\<rparr>]"
  have et: "embedding_text example_rest_transcript ?ps =
      ''Title: Weekly. Summary: Plans. Participants: Ann (ann@example.org). Transcript excerpt: hi there hey...''"
    by (simp add: embedding_text_def example_rest_transcript_def get_or_def participant_text_def)
  have ce: "create_embedding_rest (\<lambda>k t. Some [1, 2 :: int])
        (Some (embedding_text example_rest_transcript ?ps)) w =
      (Some [1, 2], w\<lparr>submitted := submitted w @ [embedding_text example_rest_transcript ?ps]\<rparr>)"
    for w :: "int pinecone_format world"
    unfolding et
    by (simp add: create_embedding_rest_def create_embedding_attempts.simps max_retries_def
        embeddings_create_def Let_def)
  have pt: "process_transcript_rest (example_rest_env\<lparr>args_format := f, args_batch_size := b\<rparr>) tid w =
     (Inr (Some (make_pinecone_format example_rest_env tid example_rest_transcript ?ps [1, 2])),
      (log_line (Processing tid) w)\<lparr>submitted := submitted w @
            [embedding_text example_rest_transcript ?ps]\<rparr>)"
    for tid f b and w :: "int pinecone_format world"
    by (simp add: process_transcript_rest_def example_rest_env_def ce Let_def
        make_pinecone_format_def)
  have pt0: "process_transcript_rest example_rest_env tid w =
     (Inr (Some (make_pinecone_format example_rest_env tid example_rest_transcript ?ps [1, 2])),
      (log_line (Processing tid) w)\<lparr>submitted := submitted w @
            [embedding_text example_rest_transcript ?ps]\<rparr>)"
    for tid and w :: "int pinecone_format world"
    by (simp add: process_transcript_rest_def example_rest_env_def ce Let_def
        make_pinecone_format_def)
  have args: "args_format example_rest_env = Jsonl" "args_batch_size example_rest_env = 10"
    "args_resume_from example_rest_env = None"
    by (simp_all add: example_rest_env_def)
  have run1: "effects (snd (snd (main_rest example_rest_env [''A''] {}))) =
     [SaveCheckpoint {''A''},
      AppendLine (make_pinecone_format example_rest_env ''A'' example_rest_transcript ?ps [1, 2])]"
    by (simp add: main_rest_def remaining_ids_def handle_resume_from_def run_batches_def
        batch_loop.simps pt0 args save_checkpoint_def append_batch_def world0_def emit_def
        log_line_def sleep_def Let_def)
  have run2: "effects (snd (snd (main_rest (example_rest_env\<lparr>args_format := Json, args_batch_size := 1\<rparr>)
                          [''A'', ''B''] {}))) =
     [SaveCheckpoint {''A''}, SaveCheckpoint {''A'', ''B''},
      WriteJson
        [make_pinecone_format example_rest_env ''A'' example_rest_transcript ?ps [1, 2],
         make_pinecone_format example_rest_env ''B'' example_rest_transcript ?ps [1, 2]]]"
    apply (simp add: main_rest_def remaining_ids_def handle_resume_from_def run_batches_def
        batch_loop.simps pt save_checkpoint_def append_batch_def world0_def emit_def
        log_line_def sleep_def Let_def args)
    apply (auto simp: example_rest_env_def)
    done
  have run3: "map (\<lambda>x. case x of AppendLine out \<Rightarrow> out_id out | MarkProcessed tid \<Rightarrow> tid | _ \<Rightarrow> [])
        (effects (snd (main_graphql example_graphql_env [] [''T1''])))
      = [''fireflies_T1_0'', ''fireflies_T1_1'', ''T1'']"
    by (simp add: main_graphql_def example_graphql_env_def unprocessed_ids_def
        handle_resume_from_def example_chunks create_embedding_graphql_def embeddings_create_def
        pinecone_upsert_def world0_def log_line_def sleep_def emit_def Let_def
        vector_id_graphql_def str_nat.simps digit_char_def)
  show ?thesis
    unfolding run1 run2 run3 by simp
qed

end
